theory Spec2Isabelle
  imports Main "HOL-Library.Word"
begin

section \<open>Strings as the source uses them\<close>

text \<open>
  A JavaScript string is modelled as a \<open>string\<close> (a list of 8-bit characters), so the
  model covers contents and paths whose code units are below 256. Paths are POSIX paths:
  the separator is \<open>/\<close>, and the root path is taken to be normalised, without a trailing
  separator.
\<close>

definition startsWith :: "string \<Rightarrow> string \<Rightarrow> bool" where
  "startsWith s p = (take (length p) s = p)"

text \<open>\<open>s.replace(/c/g, rep)\<close> for a single character \<open>c\<close>.\<close>

definition replaceChar :: "char \<Rightarrow> string \<Rightarrow> string \<Rightarrow> string" where
  "replaceChar c rep s = concat (map (\<lambda>x. if x = c then rep else [x]) s)"

text \<open>\<open>s.replace(/\*\*/g, rep)\<close>: leftmost, non-overlapping pairs of stars.\<close>

fun replaceStarStar :: "string \<Rightarrow> string \<Rightarrow> string" where
  "replaceStarStar rep (a # b # s) =
     (if a = CHR ''*'' \<and> b = CHR ''*'' then rep @ replaceStarStar rep s
      else a # replaceStarStar rep (b # s))"
| "replaceStarStar rep s = s"

text \<open>\<open>s.split(d)\<close> for a single character \<open>d\<close>: never the empty list.\<close>

fun split_on :: "char \<Rightarrow> string \<Rightarrow> string list" where
  "split_on d [] = [[]]"
| "split_on d (c # cs) =
     (if c = d then [] # split_on d cs
      else (case split_on d cs of [] \<Rightarrow> [[c]] | x # xs \<Rightarrow> (c # x) # xs))"

definition intercalate :: "string \<Rightarrow> string list \<Rightarrow> string" where
  "intercalate sep xs = (case xs of [] \<Rightarrow> [] | y # ys \<Rightarrow> y @ concat (map (\<lambda>z. sep @ z) ys))"

text \<open>White space of \<open>\s\<close> and of \<open>trim\<close>, among the characters below 256.\<close>

definition is_space :: "char \<Rightarrow> bool" where
  "is_space c = (c \<in> set [CHR 0x09, CHR 0x0A, CHR 0x0B, CHR 0x0C, CHR 0x0D, CHR 0x20, CHR 0xA0])"

definition trim :: "string \<Rightarrow> string" where
  "trim s = rev (dropWhile is_space (rev (dropWhile is_space s)))"

definition in_range :: "char \<Rightarrow> char \<Rightarrow> char \<Rightarrow> bool" where
  "in_range lo hi c = ((of_char lo :: nat) \<le> of_char c \<and> (of_char c :: nat) \<le> of_char hi)"

text \<open>\<open>toLowerCase\<close> on the ASCII letters (the extension table has ASCII keys only).\<close>

definition lower_char :: "char \<Rightarrow> char" where
  "lower_char c = (if in_range (CHR ''A'') (CHR ''Z'') c then char_of (of_char c + (32 :: nat)) else c)"

definition toLowerCase :: "string \<Rightarrow> string" where
  "toLowerCase s = map lower_char s"

definition hexDigit :: "nat \<Rightarrow> char" where
  "hexDigit d = ''0123456789abcdef'' ! d"

fun toHex :: "nat \<Rightarrow> string" where
  "toHex n = (if n < 16 then [hexDigit n] else toHex (n div 16) @ [hexDigit (n mod 16)])"

text \<open>\<open>Number.prototype.toString(16)\<close> on an integer: a sign and lower-case digits.\<close>

definition toString16 :: "int \<Rightarrow> string" where
  "toString16 i = (if i < 0 then CHR ''-'' # toHex (nat (- i)) else toHex (nat i))"


section \<open>Regular expressions: a backtracking matcher\<close>

text \<open>
  The patterns of the symbol extractor are regular-expression literals. They are written
  here as syntax trees and run by a backtracking matcher that lists, in the priority order
  of ECMAScript (left alternative first, greedy repetition, an empty repetition round
  rejected), every way the expression can match at the front of the input. A state is the
  input still to be read and the text captured by group 1 so far. No capture group of the
  patterns below lies inside a repetition.
\<close>

datatype rx =
    Lit char
  | Dot
  | Cls bool "(char \<times> char) list"
  | Eps
  | Seq rx rx
  | Alt rx rx
  | Star rx
  | Grp rx

type_synonym mstate = "string \<times> string option"

definition in_ranges :: "(char \<times> char) list \<Rightarrow> char \<Rightarrow> bool" where
  "in_ranges rs c = list_ex (\<lambda>(lo, hi). in_range lo hi c) rs"

definition line_terminator :: "char \<Rightarrow> bool" where
  "line_terminator c = (c = CHR 0x0A \<or> c = CHR 0x0D)"

text \<open>\<open>Cls neg rs\<close> is a bracket class of inclusive ranges, negated when \<open>neg\<close> holds.\<close>

function (sequential) bt :: "rx \<Rightarrow> mstate \<Rightarrow> mstate list" where
  "bt (Lit a) (s, c) = (case s of [] \<Rightarrow> [] | x # xs \<Rightarrow> if x = a then [(xs, c)] else [])"
| "bt Dot (s, c) = (case s of [] \<Rightarrow> [] | x # xs \<Rightarrow> if line_terminator x then [] else [(xs, c)])"
| "bt (Cls neg rs) (s, c) =
     (case s of [] \<Rightarrow> [] | x # xs \<Rightarrow> if in_ranges rs x \<noteq> neg then [(xs, c)] else [])"
| "bt Eps st = [st]"
| "bt (Seq a b) st = concat (map (bt b) (bt a st))"
| "bt (Alt a b) st = bt a st @ bt b st"
| "bt (Star a) (s, c) =
     concat (map (\<lambda>st'. if length (fst st') < length s then bt (Star a) st' else [])
                 (bt a (s, c)))
       @ [(s, c)]"
| "bt (Grp a) (s, c) =
     map (\<lambda>st'. (fst st', Some (take (length s - length (fst st')) s))) (bt a (s, c))"
  by pat_completeness auto
termination
  by (relation "measures [\<lambda>(r, st). size r, \<lambda>(r, st). length (fst st)]") auto

definition str :: "string \<Rightarrow> rx" where
  "str s = foldr (\<lambda>c r. Seq (Lit c) r) s Eps"

definition seqs :: "rx list \<Rightarrow> rx" where
  "seqs rs = foldr Seq rs Eps"

definition Opt :: "rx \<Rightarrow> rx" where
  "Opt r = Alt r Eps"

definition Plus :: "rx \<Rightarrow> rx" where
  "Plus r = Seq r (Star r)"

text \<open>A match object: \<open>match.index\<close>, the end of the match, and \<open>match[1]\<close>.\<close>

type_synonym rmatch = "nat \<times> nat \<times> string option"

definition matchAt :: "rx \<Rightarrow> string \<Rightarrow> nat \<Rightarrow> rmatch option" where
  "matchAt r s i =
     (case bt r (drop i s, None) of
        [] \<Rightarrow> None
      | (rest, cap) # _ \<Rightarrow> Some (i, length s - length rest, cap))"

text \<open>
  \<open>regex.exec(s)\<close> of a global expression whose \<open>lastIndex\<close> is \<open>i\<close>: the leftmost
  position from \<open>i\<close> on where the expression matches; \<open>None\<close> is \<open>null\<close>.
\<close>

function exec :: "rx \<Rightarrow> string \<Rightarrow> nat \<Rightarrow> rmatch option" where
  "exec r s i =
     (if length s < i then None
      else (case matchAt r s i of Some m \<Rightarrow> Some m | None \<Rightarrow> exec r s (Suc i)))"
  by pat_completeness auto
termination
  by (relation "measure (\<lambda>(r, s, i). Suc (length s) - i)") auto

text \<open>
  The loop \<open>while ((match = regex.exec(content)) !== null) symbols.push(...)\<close>, collecting
  the match objects. \<open>exec\<close> leaves \<open>lastIndex\<close> at the end of the match, so a match
  that does not move \<open>lastIndex\<close> forward is found again for ever: the loop does not return,
  which is \<open>None\<close>.
\<close>

function execAll :: "rx \<Rightarrow> string \<Rightarrow> nat \<Rightarrow> rmatch list option" where
  "execAll r s li =
     (case exec r s li of
        None \<Rightarrow> Some []
      | Some (idx, e, cap) \<Rightarrow>
          if li < e \<and> e \<le> length s
          then map_option (\<lambda>ms. (idx, e, cap) # ms) (execAll r s e)
          else None)"
  by pat_completeness auto
termination
  by (relation "measure (\<lambda>(r, s, li). Suc (length s) - li)") auto

text \<open>The template literal \<open>${match[1]}\<close>: a group that took no part prints as undefined.\<close>

definition group1 :: "rmatch \<Rightarrow> string" where
  "group1 m = (case snd (snd m) of Some g \<Rightarrow> g | None \<Rightarrow> ''undefined'')"

text \<open>An expression that can match the empty string.\<close>

fun nullable :: "rx \<Rightarrow> bool" where
  "nullable (Lit a) = False"
| "nullable Dot = False"
| "nullable (Cls neg rs) = False"
| "nullable Eps = True"
| "nullable (Seq a b) = (nullable a \<and> nullable b)"
| "nullable (Alt a b) = (nullable a \<or> nullable b)"
| "nullable (Star a) = True"
| "nullable (Grp a) = nullable a"

text \<open>\<open>regex.test(s)\<close> for \<open>^r$\<close>: some way of matching \<open>r\<close> at the front uses up \<open>s\<close>.\<close>

definition fullMatch :: "rx \<Rightarrow> string \<Rightarrow> bool" where
  "fullMatch r s = list_ex (\<lambda>st. fst st = []) (bt r (s, None))"


section \<open>Symbol extractor\<close>

definition ws :: rx where
  "ws = Cls False [(CHR 0x09, CHR 0x0D), (CHR 0x20, CHR 0x20), (CHR 0xA0, CHR 0xA0)]"

definition wordChar :: rx where
  "wordChar = Cls False [(CHR ''a'', CHR ''z''), (CHR ''A'', CHR ''Z''), (CHR ''0'', CHR ''9''),
                         (CHR ''_'', CHR ''_'')]"

definition identStart :: rx where
  "identStart = Cls False [(CHR ''a'', CHR ''z''), (CHR ''A'', CHR ''Z''), (CHR ''_'', CHR ''_'')]"

definition identStartDollar :: rx where
  "identStartDollar = Cls False [(CHR ''a'', CHR ''z''), (CHR ''A'', CHR ''Z''),
                                 (CHR ''_'', CHR ''_''), (CHR ''$'', CHR ''$'')]"

definition identCharDollar :: rx where
  "identCharDollar = Cls False [(CHR ''a'', CHR ''z''), (CHR ''A'', CHR ''Z''),
                                (CHR ''0'', CHR ''9''), (CHR ''_'', CHR ''_''),
                                (CHR ''$'', CHR ''$'')]"

text \<open>
  \<^verbatim>\<open>/(?:async\s+)?(?:function|const|let|var)\s+([a-zA-Z_$][a-zA-Z0-9_$]*)\s*(?:=\s*)?(?:async\s*)?\(/g\<close>
\<close>

definition jsFuncRegex :: rx where
  "jsFuncRegex = seqs
     [Opt (Seq (str ''async'') (Plus ws)),
      Alt (str ''function'') (Alt (str ''const'') (Alt (str ''let'') (str ''var''))),
      Plus ws,
      Grp (Seq identStartDollar (Star identCharDollar)),
      Star ws,
      Opt (Seq (Lit (CHR ''='')) (Star ws)),
      Opt (Seq (str ''async'') (Star ws)),
      Lit (CHR ''('')]"

text \<open>\<^verbatim>\<open>/class\s+([a-zA-Z_$][a-zA-Z0-9_$]*)/g\<close>\<close>

definition jsClassRegex :: rx where
  "jsClassRegex = seqs [str ''class'', Plus ws, Grp (Seq identStartDollar (Star identCharDollar))]"

text \<open>\<^verbatim>\<open>/def\s+([a-zA-Z_][a-zA-Z0-9_]*)\s*\(/g\<close>\<close>

definition pyFuncRegex :: rx where
  "pyFuncRegex = seqs [str ''def'', Plus ws, Grp (Seq identStart (Star wordChar)), Star ws,
                       Lit (CHR ''('')]"

text \<open>\<^verbatim>\<open>/class\s+([a-zA-Z_][a-zA-Z0-9_]*)/g\<close>\<close>

definition pyClassRegex :: rx where
  "pyClassRegex = seqs [str ''class'', Plus ws, Grp (Seq identStart (Star wordChar))]"

text \<open>\<^verbatim>\<open>/(?:public\s+)?(?:class|interface)\s+([a-zA-Z_][a-zA-Z0-9_]*)/g\<close>\<close>

definition javaClassRegex :: rx where
  "javaClassRegex = seqs
     [Opt (Seq (str ''public'') (Plus ws)),
      Alt (str ''class'') (str ''interface''),
      Plus ws,
      Grp (Seq identStart (Star wordChar))]"

text \<open>
  \<^verbatim>\<open>/(?:public|private|protected)?\s+(?:static\s+)?(?:\w+\s+)*([a-zA-Z_][a-zA-Z0-9_]*)\s*\(/g\<close>
\<close>

definition javaMethodRegex :: rx where
  "javaMethodRegex = seqs
     [Opt (Alt (str ''public'') (Alt (str ''private'') (str ''protected''))),
      Plus ws,
      Opt (Seq (str ''static'') (Plus ws)),
      Star (Seq (Plus wordChar) (Plus ws)),
      Grp (Seq identStart (Star wordChar)),
      Star ws,
      Lit (CHR ''('')]"

text \<open>
  One \<open>while\<close> loop of \<open>extractSymbols\<close>: every match of the pattern, from \<open>lastIndex = 0\<close>,
  pushed as \<open>tag:name\<close>.
\<close>

definition pushAll :: "string \<Rightarrow> rx \<Rightarrow> string \<Rightarrow> string list option" where
  "pushAll tag r content = map_option (map (\<lambda>m. tag @ group1 m)) (execAll r content 0)"

text \<open>The same loop, keeping \<open>match.index\<close> beside each symbol it pushes.\<close>

definition located :: "string \<Rightarrow> rx \<Rightarrow> string \<Rightarrow> (nat \<times> string) list option" where
  "located tag r content =
     map_option (map (\<lambda>m. (fst m, tag @ group1 m))) (execAll r content 0)"

text \<open>The two loops of a language branch, the second appending to what the first pushed.\<close>

definition twoLoops :: "string \<Rightarrow> rx \<Rightarrow> string \<Rightarrow> rx \<Rightarrow> string \<Rightarrow> string list option" where
  "twoLoops tag1 r1 tag2 r2 content =
     (case pushAll tag1 r1 content of
        None \<Rightarrow> None
      | Some first \<Rightarrow>
          (case pushAll tag2 r2 content of
             None \<Rightarrow> None
           | Some second \<Rightarrow> Some (first @ second)))"

definition extractSymbols :: "string \<Rightarrow> string \<Rightarrow> string list option" where
  "extractSymbols content language =
     (if language = ''typescript'' \<or> language = ''javascript''
      then twoLoops ''fn:'' jsFuncRegex ''class:'' jsClassRegex content
      else if language = ''python''
      then twoLoops ''fn:'' pyFuncRegex ''class:'' pyClassRegex content
      else if language = ''java'' \<or> language = ''csharp''
      then twoLoops ''class:'' javaClassRegex ''method:'' javaMethodRegex content
      else Some [])"

text \<open>The symbols of the two loops of a language branch with the positions of their matches.\<close>

definition twoLocated ::
  "string \<Rightarrow> rx \<Rightarrow> string \<Rightarrow> rx \<Rightarrow> string
     \<Rightarrow> ((nat \<times> string) list \<times> (nat \<times> string) list) option" where
  "twoLocated tag1 r1 tag2 r2 content =
     (case located tag1 r1 content of
        None \<Rightarrow> None
      | Some first \<Rightarrow>
          (case located tag2 r2 content of
             None \<Rightarrow> None
           | Some second \<Rightarrow> Some (first, second)))"

definition locatedSymbols ::
  "string \<Rightarrow> string \<Rightarrow> ((nat \<times> string) list \<times> (nat \<times> string) list) option" where
  "locatedSymbols content language =
     (if language = ''typescript'' \<or> language = ''javascript''
      then twoLocated ''fn:'' jsFuncRegex ''class:'' jsClassRegex content
      else if language = ''python''
      then twoLocated ''fn:'' pyFuncRegex ''class:'' pyClassRegex content
      else if language = ''java'' \<or> language = ''csharp''
      then twoLocated ''class:'' javaClassRegex ''method:'' javaMethodRegex content
      else Some ([], []))"

text \<open>
  Following the spec's words (order = first-occurrence order in content): the symbols of
  both loops, sorted by the position of their match in the content.
\<close>

definition symbolsByOccurrence :: "string \<Rightarrow> string \<Rightarrow> string list option" where
  "symbolsByOccurrence content language =
     map_option (\<lambda>(first, second). map snd (sort_key fst (first @ second)))
       (locatedSymbols content language)"


text \<open>The tags of the first and of the second loop of a language branch.\<close>

definition loopTags :: "string \<Rightarrow> string \<times> string" where
  "loopTags lang =
     (if lang = ''typescript'' \<or> lang = ''javascript'' \<or> lang = ''python''
      then (''fn:'', ''class:'')
      else if lang = ''java'' \<or> lang = ''csharp'' then (''class:'', ''method:'')
      else ([], []))"


section \<open>Data model\<close>

record CodeFile =
  fileId :: string
  path :: string
  relativePath :: string
  language :: string
  content :: string
  fileSize :: nat
  lastModified :: nat
  hash :: string
  symbols :: "string list"

record Summary =
  functionsCount :: nat
  classesCount :: nat
  totalCount :: nat

text \<open>
  \<open>languages\<close> is a JavaScript object used as a dictionary: an association list in
  insertion order, read with \<open>map_of\<close> and written with \<open>assign\<close>.
\<close>

record CodebaseIndex =
  rootPath :: string
  files :: "CodeFile list"
  totalSize :: nat
  fileCount :: nat
  lastIndexed :: nat
  languages :: "(string \<times> nat) list"
  summary :: Summary

fun assign :: "'k \<Rightarrow> 'v \<Rightarrow> ('k \<times> 'v) list \<Rightarrow> ('k \<times> 'v) list" where
  "assign k v [] = [(k, v)]"
| "assign k v ((k', v') # kvs) = (if k' = k then (k, v) # kvs else (k', v') # assign k v kvs)"

datatype error = Failure string

text \<open>
  What the indexer takes from its host: the regular-expression engine (\<open>regexTest src s\<close> is
  \<open>new RegExp(src).test(s)\<close>, \<open>None\<close> when the constructor throws), the identifier drawn
  for the \<open>k\<close>-th file of a walk (built in the source from the clock and a random number),
  and the clock at the start of the walk.
\<close>

record host =
  regexTest :: "string \<Rightarrow> string \<Rightarrow> bool option"
  newId :: "nat \<Rightarrow> string"
  startTime :: nat


section \<open>Ignore policy\<close>

definition commonIgnorePaths :: "string list" where
  "commonIgnorePaths =
    [''node_modules'', ''.npm'', ''npm-debug.log'', ''package-lock.json'', ''yarn.lock'',
     ''pnpm-lock.yaml'',
     ''__pycache__'', ''.venv'', ''venv'', ''env'', ''.env'', ''.env.local'', ''.env.*.local'',
     ''pip-log.txt'', ''pip-delete-this-directory.txt'', ''.Python'', ''build'',
     ''develop-eggs'', ''dist'', ''downloads'', ''eggs'', ''.eggs'', ''lib'', ''lib64'',
     ''parts'', ''sdist'', ''var'', ''wheels'', ''*.egg-info'', ''.installed.cfg'', ''*.egg'',
     ''.git'', ''.gitignore'', ''.gitattributes'', ''.github'', ''.gitlab'', ''.hg'', ''.svn'',
     ''.vscode'', ''.idea'', ''.sublime-project'', ''.sublime-workspace'', ''.project'',
     ''.pydevproject'', ''.settings'', ''.classpath'',
     ''dist'', ''build'', ''out'', ''.next'', ''.nuxt'', ''.cache'', ''.parcel-cache'',
     ''.vercel'', ''.turbo'', ''coverage'',
     ''.gradle'', ''target'', ''.m2'',
     ''cmake-build-debug'', ''cmake-build-release'', ''.o'', ''.a'', ''.so'',
     ''vendor'', ''.gopath'',
     ''target'', ''Cargo.lock'',
     ''.dockerignore'', ''Dockerfile'',
     ''.DS_Store'', ''Thumbs.db'', ''.AppleDouble'', ''.LSOverride'', ''.TemporaryItems'',
     ''*.zip'', ''*.tar'', ''*.gz'', ''*.rar'',
     ''tmp'', ''temp'', ''.tmp'', ''logs'', ''*.log'', ''.cache'']"

definition commonIgnoreFiles :: "string list" where
  "commonIgnoreFiles =
    [''.gitignore'', ''.env'', ''.env.local'', ''.DS_Store'', ''package-lock.json'',
     ''yarn.lock'', ''pnpm-lock.yaml'']"

text \<open>
  The four \<open>replace\<close> calls of \<open>matchesPattern\<close>, in the source's order, each applied to
  the result of the one before.
\<close>

definition regexPattern :: "string \<Rightarrow> string" where
  "regexPattern pattern =
     replaceChar (CHR ''?'') ''.''
       (replaceChar (CHR ''*'') ''[^/]*''
          (replaceStarStar ''.*''
             (replaceChar (CHR ''.'') [CHR 0x5C, CHR ''.''] pattern)))"

definition matchesPattern :: "host \<Rightarrow> string \<Rightarrow> string \<Rightarrow> bool" where
  "matchesPattern h p pattern =
     (case regexTest h (''^'' @ regexPattern pattern @ ''$'') p of
        Some b \<Rightarrow> b
      | None \<Rightarrow> False)"

definition shouldIgnore :: "host \<Rightarrow> string list \<Rightarrow> string \<Rightarrow> string \<Rightarrow> bool \<Rightarrow> bool" where
  "shouldIgnore h gitignorePatterns fileName relPath isDir =
     (let normalizedPath = replaceChar (CHR 0x5C) ''/'' relPath;
          parts = split_on (CHR ''/'') normalizedPath
      in if fileName \<in> set commonIgnoreFiles then True
         else if list_ex (\<lambda>part. part \<in> set commonIgnorePaths) parts then True
         else list_ex (\<lambda>pattern. matchesPattern h normalizedPath pattern) gitignorePatterns)"

text \<open>
  The expressions \<open>matchesPattern\<close> builds are run by the host's engine. For the sources
  made of literal characters, an escaped syntax character, \<open>.\<close>, the class \<open>[^/]\<close>, and
  \<open>*\<close> after any of these, between \<open>^\<close> and \<open>$\<close>, the result of \<open>test\<close> is computed here
  with the matcher above. \<open>modelledTest src s\<close> is \<open>None\<close> for every other source: it says
  nothing about them.
\<close>

definition syntaxChar :: "char \<Rightarrow> bool" where
  "syntaxChar c = (c \<in> set ''^$.*+?()[]{}|/'' \<or> c = CHR 0x5C)"

definition atomAt :: "char \<Rightarrow> string \<Rightarrow> (rx \<times> nat) option" where
  "atomAt c s =
     (if c = CHR 0x5C
      then (case s of [] \<Rightarrow> None | x # _ \<Rightarrow> if syntaxChar x then Some (Lit x, 1) else None)
      else if c = CHR ''.'' then Some (Dot, 0)
      else if c = CHR ''[''
      then (if take 3 s = ''^/]'' then Some (Cls True [(CHR ''/'', CHR ''/'')], 3) else None)
      else if syntaxChar c \<and> c \<noteq> CHR ''/'' then None
      else Some (Lit c, 0))"

function parseAtoms :: "string \<Rightarrow> rx list option" where
  "parseAtoms [] = Some []"
| "parseAtoms (c # s) =
     (case atomAt c s of
        None \<Rightarrow> None
      | Some (a, n) \<Rightarrow>
          if take 1 (drop n s) = ''*''
          then map_option (\<lambda>as. Star a # as) (parseAtoms (drop (Suc n) s))
          else map_option (\<lambda>as. a # as) (parseAtoms (drop n s)))"
  by pat_completeness auto
termination
  by (relation "measure length") auto

definition modelledTest :: "string \<Rightarrow> string \<Rightarrow> bool option" where
  "modelledTest src s =
     (case src of
        [] \<Rightarrow> None
      | c # body \<Rightarrow>
          if c = CHR ''^'' \<and> body \<noteq> [] \<and> last body = CHR ''$''
          then map_option (\<lambda>as. fullMatch (seqs as) s) (parseAtoms (butlast body))
          else None)"

text \<open>A host whose engine gives the computed result wherever there is one.\<close>

definition conforms :: "host \<Rightarrow> bool" where
  "conforms h = (\<forall>src s b. modelledTest src s = Some b \<longrightarrow> regexTest h src s = Some b)"

text \<open>
  Following the spec's words: \<open>**\<close> is any sequence of characters, separators included,
  \<open>*\<close> any sequence without a separator, \<open>?\<close> one character, every other character itself;
  the whole path has to match.
\<close>

fun globSpec :: "string \<Rightarrow> rx list" where
  "globSpec [] = []"
| "globSpec [c] =
     (if c = CHR ''*'' then [Star (Cls True [(CHR ''/'', CHR ''/'')])]
      else if c = CHR ''?'' then [Cls True []]
      else [Lit c])"
| "globSpec (a # b # s) =
     (if a = CHR ''*'' \<and> b = CHR ''*'' then Star (Cls True []) # globSpec s
      else if a = CHR ''*'' then Star (Cls True [(CHR ''/'', CHR ''/'')]) # globSpec (b # s)
      else if a = CHR ''?'' then Cls True [] # globSpec (b # s)
      else Lit a # globSpec (b # s))"

definition matchesGlobSpec :: "string \<Rightarrow> string \<Rightarrow> bool" where
  "matchesGlobSpec p pattern = fullMatch (seqs (globSpec pattern)) p"


section \<open>Language classification and content fingerprint\<close>

definition supportedLanguages :: "string list" where
  "supportedLanguages =
    [''typescript'', ''javascript'', ''python'', ''java'', ''csharp'', ''cpp'', ''c'', ''go'',
     ''rust'', ''php'', ''ruby'', ''swift'', ''kotlin'', ''scala'', ''haskell'', ''r'',
     ''matlab'', ''groovy'', ''shell'', ''bash'', ''sql'', ''html'', ''css'', ''scss'', ''less'',
     ''json'', ''yaml'', ''xml'', ''markdown'']"

definition extensionMap :: "(string \<times> string) list" where
  "extensionMap =
    [(''ts'', ''typescript''), (''tsx'', ''typescript''), (''js'', ''javascript''),
     (''jsx'', ''javascript''), (''py'', ''python''), (''java'', ''java''), (''cs'', ''csharp''),
     (''cpp'', ''cpp''), (''cc'', ''cpp''), (''cxx'', ''cpp''), (''c'', ''c''), (''go'', ''go''),
     (''rs'', ''rust''), (''php'', ''php''), (''rb'', ''ruby''), (''swift'', ''swift''),
     (''kt'', ''kotlin''), (''scala'', ''scala''), (''hs'', ''haskell''), (''r'', ''r''),
     (''m'', ''matlab''), (''groovy'', ''groovy''), (''sh'', ''shell''), (''bash'', ''bash''),
     (''sql'', ''sql''), (''html'', ''html''), (''htm'', ''html''), (''css'', ''css''),
     (''scss'', ''scss''), (''less'', ''less''), (''json'', ''json''), (''yaml'', ''yaml''),
     (''yml'', ''yaml''), (''xml'', ''xml''), (''md'', ''markdown'')]"

text \<open>
  \<open>path.extname\<close> of Node, on a path without trailing separators: the last dot of the
  base name and what follows it, or nothing when the base name has no dot, begins with its
  only dot, or is \<open>..\<close>.
\<close>

definition extname :: "string \<Rightarrow> string" where
  "extname p =
     (let base = last (split_on (CHR ''/'') p);
          afterDot = rev (takeWhile (\<lambda>c. c \<noteq> CHR ''.'') (rev base));
          startDot = length base - length afterDot - 1
      in if CHR ''.'' \<notin> set base \<or> startDot = 0 \<or> base = ''..'' then []
         else drop startDot base)"

definition getLanguageFromPath :: "string \<Rightarrow> string option" where
  "getLanguageFromPath filePath =
     (let ext = drop 1 (toLowerCase (extname filePath))
      in case map_of extensionMap ext of
           Some lang \<Rightarrow> if lang \<in> set supportedLanguages then Some lang else None
         | None \<Rightarrow> None)"

text \<open>
  \<open>simpleHash\<close>: \<open>(hash << 5) - hash + char\<close> cut to a signed 32-bit integer at every step,
  printed in base 16.
\<close>

definition simpleHash :: "string \<Rightarrow> string" where
  "simpleHash s =
     toString16 (sint (foldl (\<lambda>h c. push_bit 5 h - h + of_nat (of_char c)) (0 :: 32 word) s))"


section \<open>The file tree and the walk\<close>

text \<open>
  The file system under the root, as the walk sees it. A \<open>File\<close> carries the result of
  \<open>stat\<close> (size and modification time, \<open>None\<close> when \<open>stat\<close> fails) and of \<open>readFile\<close>
  (\<open>None\<close> when reading fails). \<open>Dir\<close> is a directory with its listing, \<open>Unlistable\<close> a
  directory path whose \<open>readdir\<close> fails (missing, unreadable), \<open>Other\<close> an entry that is
  neither a file nor a directory. Nothing below an \<open>Unlistable\<close> directory is part of
  the tree. Sizes are in bytes, times in whole milliseconds.
\<close>

datatype fnode =
    File "(nat \<times> nat) option" "string option"
  | Dir "(string \<times> fnode) list"
  | Unlistable
  | Other

definition joinPath :: "string \<Rightarrow> string \<Rightarrow> string" where
  "joinPath dir name = dir @ ''/'' @ name"

text \<open>\<open>path.relative(rootPath, fullPath)\<close> for a path below the root.\<close>

definition relativeTo :: "string \<Rightarrow> string \<Rightarrow> string" where
  "relativeTo root full = drop (length root + 1) full"

definition isDirectory :: "fnode \<Rightarrow> bool" where
  "isDirectory n = (case n of Dir _ \<Rightarrow> True | Unlistable \<Rightarrow> True | _ \<Rightarrow> False)"

definition countKinds :: "string list \<Rightarrow> string list \<Rightarrow> nat" where
  "countKinds tags syms = length (filter (\<lambda>s. list_ex (startsWith s) tags) syms)"

text \<open>
  \<open>indexFile\<close>. Every exception of the body is caught and leaves the index as it was. The
  result is \<open>None\<close> when the symbol loops do not return. The report to the optional
  progress sink changes nothing in the index and is left out.
\<close>

definition indexFile ::
  "host \<Rightarrow> string \<Rightarrow> string \<Rightarrow> (nat \<times> nat) option \<Rightarrow> string option \<Rightarrow> CodebaseIndex
     \<Rightarrow> CodebaseIndex option" where
  "indexFile h fullPath relPath stats readResult index =
     (case stats of
        None \<Rightarrow> Some index
      | Some (sz, mtimeMs) \<Rightarrow>
          if sz > 500 * 1024 then Some index
          else (case getLanguageFromPath fullPath of
                  None \<Rightarrow> Some index
                | Some lang \<Rightarrow>
                    (let text = (case readResult of Some t \<Rightarrow> t | None \<Rightarrow> [])
                     in case extractSymbols text lang of
                          None \<Rightarrow> None
                        | Some syms \<Rightarrow>
                            Some (index
                              \<lparr> files := files index @
                                  [\<lparr> fileId = newId h (length (files index)),
                                     path = fullPath,
                                     relativePath = relPath,
                                     language = lang,
                                     content = text,
                                     fileSize = sz,
                                     lastModified = mtimeMs,
                                     hash = simpleHash text,
                                     symbols = syms \<rparr>],
                                totalSize := totalSize index + sz,
                                fileCount := fileCount index + 1,
                                languages :=
                                  assign lang
                                    ((case map_of (languages index) lang of
                                        Some n \<Rightarrow> n | None \<Rightarrow> 0) + 1)
                                    (languages index),
                                summary :=
                                  \<lparr> functionsCount = functionsCount (summary index)
                                       + countKinds [''fn:'', ''method:''] syms,
                                     classesCount = classesCount (summary index)
                                       + countKinds [''class:'', ''struct:''] syms,
                                     totalCount = totalCount (summary index) + length syms \<rparr>
                              \<rparr>))))"

text \<open>
  \<open>scanDirectory\<close> and the \<open>for\<close> loop over its entries. A failing \<open>readdir\<close> is caught
  inside \<open>scanDirectory\<close> itself, for the root as for any other directory.
\<close>

fun scanDirectory ::
    "host \<Rightarrow> string list \<Rightarrow> string \<Rightarrow> string \<Rightarrow> fnode \<Rightarrow> CodebaseIndex \<Rightarrow> CodebaseIndex option"
  and scanEntries ::
    "host \<Rightarrow> string list \<Rightarrow> string \<Rightarrow> string \<Rightarrow> (string \<times> fnode) list \<Rightarrow> CodebaseIndex
       \<Rightarrow> CodebaseIndex option" where
  "scanDirectory h ps dirPath root (Dir entries) index =
     scanEntries h ps dirPath root entries index"
| "scanDirectory h ps dirPath root (File st rd) index = Some index"
| "scanDirectory h ps dirPath root Unlistable index = Some index"
| "scanDirectory h ps dirPath root Other index = Some index"
| "scanEntries h ps dirPath root [] index = Some index"
| "scanEntries h ps dirPath root ((name, node) # rest) index =
     (let fullPath = joinPath dirPath name;
          relPath = relativeTo root fullPath
      in if shouldIgnore h ps name relPath (isDirectory node)
         then scanEntries h ps dirPath root rest index
         else (case (case node of
                       Dir es \<Rightarrow> scanDirectory h ps fullPath root node index
                     | Unlistable \<Rightarrow> scanDirectory h ps fullPath root node index
                     | File st rd \<Rightarrow> indexFile h fullPath relPath st rd index
                     | Other \<Rightarrow> Some index) of
                 None \<Rightarrow> None
               | Some index' \<Rightarrow> scanEntries h ps dirPath root rest index'))"

text \<open>
  \<open>loadGitignore\<close>: the patterns are a field of the indexer and keep their old value when
  the root has no readable \<open>.gitignore\<close>.
\<close>

definition loadGitignore :: "string list \<Rightarrow> fnode \<Rightarrow> string list" where
  "loadGitignore gitignorePatterns rootNode =
     (case rootNode of
        Dir entries \<Rightarrow>
          (case map_of entries ''.gitignore'' of
             Some (File st (Some text)) \<Rightarrow>
               filter (\<lambda>line. line \<noteq> [] \<and> \<not> startsWith line ''#'')
                 (map trim (split_on (CHR 0x0A) text))
           | _ \<Rightarrow> gitignorePatterns)
      | _ \<Rightarrow> gitignorePatterns)"

definition emptyIndex :: "host \<Rightarrow> string \<Rightarrow> CodebaseIndex" where
  "emptyIndex h workspacePath =
     \<lparr> rootPath = workspacePath, files = [], totalSize = 0, fileCount = 0,
       lastIndexed = startTime h, languages = [],
       summary = \<lparr> functionsCount = 0, classesCount = 0, totalCount = 0 \<rparr> \<rparr>"

text \<open>
  \<open>indexWorkspace\<close> returns the indexer's patterns after the call and the outcome of the
  promise: \<open>Inr\<close> the index it resolves to, \<open>Inl\<close> the error it rejects with. The \<open>catch\<close>
  of the source rethrows, but neither \<open>loadGitignore\<close> nor \<open>scanDirectory\<close> lets an
  exception out, so no branch of the model produces \<open>Inl\<close>. \<open>None\<close>: the walk does not
  return.
\<close>

definition indexWorkspace ::
  "host \<Rightarrow> string list \<Rightarrow> string \<Rightarrow> fnode \<Rightarrow> (string list \<times> (error + CodebaseIndex)) option" where
  "indexWorkspace h gitignorePatterns workspacePath rootNode =
     (let ps = loadGitignore gitignorePatterns rootNode
      in case scanDirectory h ps workspacePath workspacePath rootNode (emptyIndex h workspacePath) of
           None \<Rightarrow> None
         | Some index \<Rightarrow> Some (ps, Inr index))"

text \<open>A file whose \<open>stat\<close> size is above the ceiling, and a tree without such files.\<close>

definition oversized :: "fnode \<Rightarrow> bool" where
  "oversized n = (case n of File (Some (sz, mtimeMs)) rd \<Rightarrow> sz > 512000 | _ \<Rightarrow> False)"

fun withoutOversized :: "fnode \<Rightarrow> fnode"
  and withoutOversizedEntries :: "(string \<times> fnode) list \<Rightarrow> (string \<times> fnode) list" where
  "withoutOversized (Dir entries) = Dir (withoutOversizedEntries entries)"
| "withoutOversized (File st rd) = File st rd"
| "withoutOversized Unlistable = Unlistable"
| "withoutOversized Other = Other"
| "withoutOversizedEntries [] = []"
| "withoutOversizedEntries ((name, node) # rest) =
     (if oversized node then withoutOversizedEntries rest
      else (name, withoutOversized node) # withoutOversizedEntries rest)"

definition histogramSum :: "CodebaseIndex \<Rightarrow> nat" where
  "histogramSum index = sum_list (map snd (languages index))"

definition languageCount :: "CodebaseIndex \<Rightarrow> string \<Rightarrow> nat" where
  "languageCount index lang = (case map_of (languages index) lang of Some n \<Rightarrow> n | None \<Rightarrow> 0)"


section \<open>Index store\<close>

text \<open>
  What is written to the metadata document and what \<open>loadIndex\<close> hands back are plain
  JavaScript values, not values of the declared types: \<open>loadIndex\<close> builds its result by
  spreading the parsed document. They are modelled as JSON values made of objects
  (association lists, read at the first binding of a key), arrays, strings and natural
  numbers; \<open>JSON.parse (JSON.stringify v)\<close> is \<open>v\<close> on these. A property that is absent
  reads as \<open>None\<close> (\<open>undefined\<close>).
\<close>

datatype jsval =
    JNum nat
  | JStr string
  | JArr "jsval list"
  | JObj "(string \<times> jsval) list"

definition getProp :: "jsval \<Rightarrow> string \<Rightarrow> jsval option" where
  "getProp v k = (case v of JObj kvs \<Rightarrow> map_of kvs k | _ \<Rightarrow> None)"

definition decDigit :: "nat \<Rightarrow> char" where
  "decDigit d = ''0123456789'' ! d"

fun decimal :: "nat \<Rightarrow> string" where
  "decimal n = (if n < 10 then [decDigit n] else decimal (n div 10) @ [decDigit (n mod 10)])"

text \<open>The string a value has inside a template literal.\<close>

fun toStringJS :: "jsval \<Rightarrow> string" where
  "toStringJS (JNum n) = decimal n"
| "toStringJS (JStr s) = s"
| "toStringJS (JArr xs) = intercalate '','' (map toStringJS xs)"
| "toStringJS (JObj kvs) = ''[object Object]''"

definition template :: "jsval option \<Rightarrow> string" where
  "template v = (case v of None \<Rightarrow> ''undefined'' | Some x \<Rightarrow> toStringJS x)"

text \<open>The own properties an object spread \<open>{...v}\<close> copies.\<close>

definition spread :: "jsval \<Rightarrow> (string \<times> jsval) list" where
  "spread v =
     (case v of
        JObj kvs \<Rightarrow> kvs
      | JArr xs \<Rightarrow> zip (map decimal [0..<length xs]) xs
      | JStr s \<Rightarrow> zip (map decimal [0..<length s]) (map (\<lambda>c. JStr [c]) s)
      | JNum n \<Rightarrow> [])"

text \<open>
  The storage directory: metadata documents and content blobs, each under its path. The
  two kinds live at different paths (\<open><key>.json\<close> and \<open><key>/contents/<id>.txt\<close>) and are
  kept in two maps. \<open>io\<close> says which writes, reads and directory creations fail.
\<close>

record disk =
  docs :: "string \<rightharpoonup> jsval"
  blobs :: "string \<rightharpoonup> string"

record io =
  writeFails :: "string \<Rightarrow> bool"
  readFails :: "string \<Rightarrow> bool"
  mkdirFails :: "string \<Rightarrow> bool"

definition alnumDash :: "char \<Rightarrow> bool" where
  "alnumDash c = (in_range (CHR ''a'') (CHR ''z'') c \<or> in_range (CHR ''A'') (CHR ''Z'') c
                  \<or> in_range (CHR ''0'') (CHR ''9'') c \<or> c = CHR ''-'')"

definition getWorkspaceName :: "string \<Rightarrow> string" where
  "getWorkspaceName workspacePath =
     map (\<lambda>c. if alnumDash c then c else CHR ''_'') (last (split_on (CHR ''/'') workspacePath))"

definition indexFilePath :: "string \<Rightarrow> string \<Rightarrow> string" where
  "indexFilePath storagePath workspaceName = joinPath storagePath (workspaceName @ ''.json'')"

definition contentsDir :: "string \<Rightarrow> string \<Rightarrow> string" where
  "contentsDir storagePath workspaceName = joinPath (joinPath storagePath workspaceName) ''contents''"

definition blobPath :: "string \<Rightarrow> string \<Rightarrow> string \<Rightarrow> string" where
  "blobPath storagePath workspaceName ident =
     joinPath (contentsDir storagePath workspaceName) (ident @ ''.txt'')"

definition compactFile :: "CodeFile \<Rightarrow> jsval" where
  "compactFile f =
     JObj [(''id'', JStr (fileId f)),
           (''path'', JStr (path f)),
           (''relativePath'', JStr (relativePath f)),
           (''language'', JStr (language f)),
           (''size'', JNum (fileSize f)),
           (''hash'', JStr (hash f))]"

definition compactIndex :: "CodebaseIndex \<Rightarrow> jsval" where
  "compactIndex index =
     JObj [(''rootPath'', JStr (rootPath index)),
           (''fileCount'', JNum (fileCount index)),
           (''totalSize'', JNum (totalSize index)),
           (''lastIndexed'', JNum (lastIndexed index)),
           (''languages'', JObj (map (\<lambda>(l, n). (l, JNum n)) (languages index))),
           (''files'', JArr (map compactFile (files index)))]"

text \<open>The loop of \<open>saveFileContents\<close>: a failed write is caught and the loop goes on.\<close>

fun writeContents :: "io \<Rightarrow> string \<Rightarrow> CodeFile list \<Rightarrow> disk \<Rightarrow> disk" where
  "writeContents env dir [] d = d"
| "writeContents env dir (f # fs) d =
     (let filePath = joinPath dir (fileId f @ ''.txt'')
      in writeContents env dir fs
           (if writeFails env filePath then d
            else d\<lparr> blobs := (blobs d)(filePath \<mapsto> content f) \<rparr>))"

definition saveFileContents :: "io \<Rightarrow> string \<Rightarrow> string \<Rightarrow> CodeFile list \<Rightarrow> disk \<Rightarrow> disk \<times> error option" where
  "saveFileContents env storagePath workspaceName fs d =
     (let dir = contentsDir storagePath workspaceName
      in if mkdirFails env dir then (d, Some (Failure ''mkdir''))
         else (writeContents env dir fs d, None))"

text \<open>
  \<open>saveIndex\<close> returns the storage directory after the call and the error the promise
  rejects with, if any. The metadata document is written first, then the blobs.
\<close>

definition saveIndex :: "io \<Rightarrow> string \<Rightarrow> disk \<Rightarrow> string \<Rightarrow> CodebaseIndex \<Rightarrow> disk \<times> error option" where
  "saveIndex env storagePath d workspacePath index =
     (let workspaceName = getWorkspaceName workspacePath;
          indexFile = indexFilePath storagePath workspaceName
      in if writeFails env indexFile then (d, Some (Failure ''writeFile''))
         else saveFileContents env storagePath workspaceName (files index)
                (d\<lparr> docs := (docs d)(indexFile \<mapsto> compactIndex index) \<rparr>))"

text \<open>
  One element of \<open>loadFileContents\<close>: the record with its \<open>content\<close>, the empty string when
  the blob cannot be read.
\<close>

definition loadOne :: "io \<Rightarrow> string \<Rightarrow> disk \<Rightarrow> jsval \<Rightarrow> jsval" where
  "loadOne env dir d file =
     (let filePath = joinPath dir (template (getProp file ''id'') @ ''.txt'')
      in case (if readFails env filePath then None else blobs d filePath) of
           Some text \<Rightarrow> JObj (assign ''content'' (JStr text) (spread file))
         | None \<Rightarrow> JObj (assign ''content'' (JStr []) (spread file)))"

definition loadFileContents :: "io \<Rightarrow> string \<Rightarrow> string \<Rightarrow> disk \<Rightarrow> jsval list \<Rightarrow> jsval list" where
  "loadFileContents env storagePath workspaceName d fs =
     map (loadOne env (contentsDir storagePath workspaceName) d) fs"

text \<open>
  \<open>loadIndex\<close>: \<open>None\<close> is \<open>null\<close>, returned when the document is missing and when anything
  throws (the document cannot be read, or its \<open>files\<close> is not an array).
\<close>

definition loadIndex :: "io \<Rightarrow> string \<Rightarrow> disk \<Rightarrow> string \<Rightarrow> jsval option" where
  "loadIndex env storagePath d workspacePath =
     (let workspaceName = getWorkspaceName workspacePath;
          indexFile = indexFilePath storagePath workspaceName
      in case docs d indexFile of
           None \<Rightarrow> None
         | Some doc \<Rightarrow>
             if readFails env indexFile then None
             else (case getProp doc ''files'' of
                     Some (JArr fs) \<Rightarrow>
                       Some (JObj (assign ''files''
                                     (JArr (loadFileContents env storagePath workspaceName d fs))
                                     (spread doc)))
                   | _ \<Rightarrow> None))"


section \<open>Change watcher and debouncer\<close>

text \<open>
  The fields of \<open>FileWatcherIndexer\<close>, with time in milliseconds. \<open>debounceTimer\<close> is the
  deadline of the pending timer; a timer that has fired or was cleared is \<open>None\<close> (clearing
  a fired timer does nothing in the source). \<open>workspaceFolder\<close> is the first workspace
  folder of the host, \<open>subscriber\<close> says whether an \<open>onIndexComplete\<close> callback is
  registered. \<open>effects\<close> records, in order, what the watcher asked of its collaborators.
\<close>

datatype effect =
    ReindexRequested
  | WalkStarted string
  | SaveCalled CodebaseIndex
  | SubscriberNotified CodebaseIndex

record watcher =
  fileWatcher :: bool
  debounceTimer :: "nat option"
  debounceDelay :: nat
  isIndexing :: bool
  pendingChanges :: bool
  currentIndex :: "CodebaseIndex option"
  subscriber :: bool
  workspaceFolder :: "string option"
  effects :: "effect list"

definition newWatcher :: "string option \<Rightarrow> watcher" where
  "newWatcher folder =
     \<lparr> fileWatcher = False, debounceTimer = None, debounceDelay = 5000, isIndexing = False,
       pendingChanges = False, currentIndex = None, subscriber = False,
       workspaceFolder = folder, effects = [] \<rparr>"

text \<open>
  \<open>reindexWorkspace\<close> is asynchronous. \<open>reindexWorkspace\<close> below is its part up to the
  first \<open>await\<close>, \<open>reindexFinish\<close> the rest, run when the walk and the save have settled
  with the given outcome.
\<close>

definition reindexWorkspace :: "watcher \<Rightarrow> watcher" where
  "reindexWorkspace w =
     (let w1 = w\<lparr> effects := effects w @ [ReindexRequested] \<rparr>
      in case workspaceFolder w1 of
           None \<Rightarrow> w1
         | Some folder \<Rightarrow>
             (case currentIndex w1 of
                None \<Rightarrow> w1
              | Some _ \<Rightarrow>
                  w1\<lparr> isIndexing := True, pendingChanges := False,
                      effects := effects w1 @ [WalkStarted folder] \<rparr>))"

definition onFileChanged :: "nat \<Rightarrow> watcher \<Rightarrow> watcher" where
  "onFileChanged now w =
     w\<lparr> pendingChanges := True, debounceTimer := Some (now + debounceDelay w) \<rparr>"

text \<open>The callback given to \<open>setTimeout\<close>.\<close>

definition timerCallback :: "watcher \<Rightarrow> watcher" where
  "timerCallback w = (if pendingChanges w \<and> \<not> isIndexing w then reindexWorkspace w else w)"

datatype outcome =
    WalkRejected
  | SaveRejected CodebaseIndex
  | Completed CodebaseIndex

definition reindexFinish :: "nat \<Rightarrow> outcome \<Rightarrow> watcher \<Rightarrow> watcher" where
  "reindexFinish now oc w =
     (let w1 = (case oc of
                  WalkRejected \<Rightarrow> w
                | SaveRejected updatedIndex \<Rightarrow>
                    w\<lparr> effects := effects w @ [SaveCalled updatedIndex] \<rparr>
                | Completed updatedIndex \<Rightarrow>
                    w\<lparr> currentIndex := Some updatedIndex,
                       effects := effects w @ [SaveCalled updatedIndex]
                         @ (if subscriber w then [SubscriberNotified updatedIndex] else []) \<rparr>);
          w2 = w1\<lparr> isIndexing := False \<rparr>
      in if pendingChanges w2 then onFileChanged now w2 else w2)"

text \<open>
  \<open>forceReindex\<close>, up to the first \<open>await\<close> of the run it starts: the lines it prints on
  the console and either the error it rejects with or the watcher it leaves.
\<close>

definition forceReindex :: "watcher \<Rightarrow> string list \<times> (error + watcher)" where
  "forceReindex w =
     (case workspaceFolder w of
        None \<Rightarrow> ([], Inl (Failure ''No workspace folder open''))
      | Some folder \<Rightarrow>
          if isIndexing w then ([''Re-indexing already in progress''], Inr w)
          else ([''Force re-index requested''],
                Inr (reindexWorkspace (w\<lparr> pendingChanges := False \<rparr>))))"

definition setCurrentIndex :: "CodebaseIndex option \<Rightarrow> watcher \<Rightarrow> watcher" where
  "setCurrentIndex index w = w\<lparr> currentIndex := index \<rparr>"



text \<open>
  A run of the watcher is a list of timed events. Before an event at time \<open>now\<close> is handled,
  a timer whose deadline has been reached fires. \<open>FileChanged\<close> is a create, change or
  delete notification delivered to the handlers of the watcher, \<open>ForceRequested\<close> a call
  of \<open>forceReindex\<close>. \<open>RunSettled\<close> is the moment the walk and the save of the run in
  flight have settled; it means nothing when no run is in flight.
\<close>

datatype event =
    FileChanged
  | ForceRequested
  | RunSettled outcome
  | TimePasses

definition fireDue :: "nat \<Rightarrow> watcher \<Rightarrow> watcher" where
  "fireDue now w =
     (case debounceTimer w of
        None \<Rightarrow> w
      | Some deadline \<Rightarrow>
          if deadline \<le> now then timerCallback (w\<lparr> debounceTimer := None \<rparr>) else w)"

definition step :: "watcher \<Rightarrow> nat \<times> event \<Rightarrow> watcher" where
  "step w te =
     (let now = fst te; w1 = fireDue now w
      in case snd te of
           FileChanged \<Rightarrow> onFileChanged now w1
         | ForceRequested \<Rightarrow> (case snd (forceReindex w1) of Inl _ \<Rightarrow> w1 | Inr w2 \<Rightarrow> w2)
         | RunSettled oc \<Rightarrow> if isIndexing w1 then reindexFinish now oc w1 else w1
         | TimePasses \<Rightarrow> w1)"

definition run :: "watcher \<Rightarrow> (nat \<times> event) list \<Rightarrow> watcher" where
  "run w tes = foldl step w tes"

definition requests :: "watcher \<Rightarrow> nat" where
  "requests w = length (filter (\<lambda>e. e = ReindexRequested) (effects w))"

definition walks :: "watcher \<Rightarrow> nat" where
  "walks w = length (filter (\<lambda>e. case e of WalkStarted _ \<Rightarrow> True | _ \<Rightarrow> False) (effects w))"


text \<open>
  What the collaborators of the watcher saw: the walks it started, the saves it called for
  and the notifications it sent.
\<close>

definition outward :: "watcher \<Rightarrow> effect list" where
  "outward w = filter (\<lambda>e. e \<noteq> ReindexRequested) (effects w)"




definition settles :: "event \<Rightarrow> bool" where
  "settles e = (case e of RunSettled oc \<Rightarrow> True | _ \<Rightarrow> False)"


section \<open>A small workspace\<close>

text \<open>
  A host whose engine is the computed one and whose identifiers are numbered, and the tree
  of the scenario of the design: a short Python file, a dependency directory, a file above
  the size ceiling, and a Python file above it.
\<close>

definition exampleHost :: host where
  "exampleHost =
     \<lparr> regexTest = modelledTest, newId = (\<lambda>k. ''file_'' @ decimal k), startTime = 0 \<rparr>"

definition exampleTree :: fnode where
  "exampleTree =
     Dir [(''a.py'', File (Some (40, 1700)) (Some ''def foo():'')),
          (''node_modules'', Dir [(''x.js'', File (Some (16, 1700)) (Some ''function x() {}''))]),
          (''big.txt'', File (Some (614400, 1700)) (Some ''zzz'')),
          (''big.py'', File (Some (614400, 1700)) (Some ''def big():''))]"

definition exampleIndex :: CodebaseIndex where
  "exampleIndex =
     \<lparr> rootPath = ''/w'',
       files = [\<lparr> fileId = ''file_0'', path = ''/w/a.py'', relativePath = ''a.py'',
                  language = ''python'', content = ''def foo():'', fileSize = 40,
                  lastModified = 1700, hash = ''-5f732ab2'', symbols = [''fn:foo''] \<rparr>],
       totalSize = 40, fileCount = 1, lastIndexed = 0, languages = [(''python'', 1)],
       summary = \<lparr> functionsCount = 1, classesCount = 0, totalCount = 1 \<rparr> \<rparr>"


text \<open>A storage directory with nothing in it, and input and output that never fail.\<close>

definition noFailures :: io where
  "noFailures = \<lparr> writeFails = (\<lambda>p. False), readFails = (\<lambda>p. False), mkdirFails = (\<lambda>p. False) \<rparr>"

definition emptyDisk :: disk where
  "emptyDisk = \<lparr> docs = Map.empty, blobs = Map.empty \<rparr>"


text \<open>A watcher that holds the snapshot of the example, idle and with a run in flight.\<close>

definition exampleWatcher :: watcher where
  "exampleWatcher = setCurrentIndex (Some exampleIndex) ((newWatcher (Some ''/w'')) \<lparr> subscriber := True \<rparr>)"

definition busyWatcher :: watcher where
  "busyWatcher = reindexWorkspace exampleWatcher"


text \<open>
  Two files side by side, the index the walk builds of them for a given host, and a host
  that draws the same identifier twice.
\<close>

definition twoTree :: fnode where
  "twoTree =
     Dir [(''a.md'', File (Some (2, 1700)) (Some ''AA'')),
          (''b.md'', File (Some (2, 1700)) (Some ''BB''))]"

definition twoIndex :: "host \<Rightarrow> CodebaseIndex" where
  "twoIndex h =
     \<lparr> rootPath = ''/w'',
       files = [\<lparr> fileId = newId h 0, path = ''/w/a.md'', relativePath = ''a.md'',
                  language = ''markdown'', content = ''AA'', fileSize = 2,
                  lastModified = 1700, hash = ''820'', symbols = [] \<rparr>,
                \<lparr> fileId = newId h 1, path = ''/w/b.md'', relativePath = ''b.md'',
                  language = ''markdown'', content = ''BB'', fileSize = 2,
                  lastModified = 1700, hash = ''840'', symbols = [] \<rparr>],
       totalSize = 4, fileCount = 2, lastIndexed = startTime h,
       languages = [(''markdown'', 2)],
       summary = \<lparr> functionsCount = 0, classesCount = 0, totalCount = 0 \<rparr> \<rparr>"

definition clashHost :: host where
  "clashHost = \<lparr> regexTest = modelledTest, newId = (\<lambda>k. ''file_7_x''), startTime = 0 \<rparr>"



section \<open>The matcher consumes input\<close>

declare exec.simps [simp del] execAll.simps [simp del] bt.simps [simp del]

lemma bt_length:
  "st' \<in> set (bt r st) \<Longrightarrow>
     length (fst st') \<le> length (fst st) \<and> (\<not> nullable r \<longrightarrow> length (fst st') < length (fst st))"
proof (induction r st arbitrary: st' rule: bt.induct)
  case (1 a s c) then show ?case by (auto simp: bt.simps split: list.splits if_splits)
next
  case (2 s c) then show ?case by (auto simp: bt.simps split: list.splits if_splits)
next
  case (3 neg rs s c) then show ?case by (auto simp: bt.simps split: list.splits if_splits)
next
  case (4 st) then show ?case by (simp add: bt.simps)
next
  case (5 a b st)
  from "5.prems" obtain m where m: "m \<in> set (bt a st)" and s: "st' \<in> set (bt b m)"
    by (auto simp: bt.simps)
  from "5.IH"(1)[OF m] "5.IH"(2)[OF m s] show ?case by auto
next
  case (6 a b st)
  from "6.prems" have "st' \<in> set (bt a st) \<or> st' \<in> set (bt b st)" by (simp add: bt.simps)
  with "6.IH"(1)[of st'] "6.IH"(2)[of st'] show ?case by auto
next
  case (7 a s c)
  from "7.prems" consider "st' = (s, c)"
    | m where "m \<in> set (bt a (s, c))" "length (fst m) < length s" "st' \<in> set (bt (Star a) m)"
    by (subst (asm) bt.simps) (auto split: if_splits)
  then show ?case
  proof cases
    case 1 then show ?thesis by simp
  next
    case 2
    from "7.IH"(2)[OF 2(1) 2(2) 2(3)] 2(2) show ?thesis by auto
  qed
next
  case (8 a s c)
  from "8.prems" obtain m where m: "m \<in> set (bt a (s, c))" and "fst st' = fst m"
    by (auto simp: bt.simps)
  with "8.IH"[OF m] show ?case by auto
qed

lemma matchAt_bounds:
  assumes "matchAt r s i = Some (idx, e, cap)" "i \<le> length s"
  shows "idx = i \<and> idx \<le> e \<and> e \<le> length s \<and> (\<not> nullable r \<longrightarrow> idx < e)"
proof -
  from assms(1) obtain rest where mem: "(rest, cap) \<in> set (bt r (drop i s, None))"
    and e: "e = length s - length rest" and idx: "idx = i"
    by (auto simp: matchAt_def split: list.splits)
  from bt_length[OF mem] have "length rest \<le> length s - i"
    and "\<not> nullable r \<longrightarrow> length rest < length s - i" by auto
  with assms(2) e idx show ?thesis by auto
qed

lemma exec_bounds:
  "exec r s i = Some (idx, e, cap) \<Longrightarrow>
     i \<le> idx \<and> idx \<le> e \<and> e \<le> length s \<and> (\<not> nullable r \<longrightarrow> idx < e)"
proof (induction r s i rule: exec.induct)
  case (1 r s i)
  show ?case
  proof (cases "length s < i")
    case True with "1.prems" show ?thesis by (simp add: exec.simps[of r s i])
  next
    case False
    show ?thesis
    proof (cases "matchAt r s i")
      case None
      with False "1.prems" have "exec r s (Suc i) = Some (idx, e, cap)"
        by (simp add: exec.simps[of r s i])
      from "1.IH"[OF False None this] show ?thesis by auto
    next
      case (Some m)
      with False "1.prems" have "matchAt r s i = Some (idx, e, cap)"
        by (simp add: exec.simps[of r s i])
      from matchAt_bounds[OF this] False show ?thesis by auto
    qed
  qed
qed

lemma execAll_total:
  "\<not> nullable r \<Longrightarrow> \<exists>ms. execAll r s li = Some ms"
proof (induction r s li rule: execAll.induct)
  case (1 r s li)
  show ?case
  proof (cases "exec r s li")
    case None then show ?thesis by (simp add: execAll.simps[of r s li])
  next
    case (Some m)
    obtain idx e cap where m: "m = (idx, e, cap)" by (cases m) auto
    from exec_bounds[of r s li idx e cap] Some m "1.prems"
    have b: "li < e \<and> e \<le> length s" by auto
    from "1.IH"[OF Some[unfolded m] refl refl b "1.prems"] obtain ms where "execAll r s e = Some ms" by auto
    with Some m b show ?thesis by (simp add: execAll.simps[of r s li])
  qed
qed

lemma execAll_sorted:
  "\<not> nullable r \<Longrightarrow> execAll r s li = Some ms \<Longrightarrow>
     sorted_wrt (<) (map fst ms) \<and> (\<forall>m \<in> set ms. li \<le> fst m)"
proof (induction r s li arbitrary: ms rule: execAll.induct)
  case (1 r s li)
  show ?case
  proof (cases "exec r s li")
    case None with "1.prems" show ?thesis by (simp add: execAll.simps[of r s li])
  next
    case (Some m)
    obtain idx e cap where m: "m = (idx, e, cap)" by (cases m) auto
    from exec_bounds[of r s li idx e cap] Some m "1.prems"
    have b: "li < e \<and> e \<le> length s" and o: "li \<le> idx" "idx < e" by auto
    from "1.prems"(2) Some m b obtain ms' where ms': "execAll r s e = Some ms'" and ms: "ms = (idx, e, cap) # ms'"
      by (auto simp: execAll.simps[of r s li])
    from "1.IH"[OF Some[unfolded m] refl refl b "1.prems"(1) ms']
    have "sorted_wrt (<) (map fst ms')" "\<forall>m \<in> set ms'. e \<le> fst m" by auto
    with o ms show ?thesis by fastforce
  qed
qed

lemma patterns_not_nullable:
  "\<not> nullable jsFuncRegex" "\<not> nullable jsClassRegex" "\<not> nullable pyFuncRegex"
  "\<not> nullable pyClassRegex" "\<not> nullable javaClassRegex" "\<not> nullable javaMethodRegex"
  by (simp_all add: jsFuncRegex_def jsClassRegex_def pyFuncRegex_def pyClassRegex_def
      javaClassRegex_def javaMethodRegex_def seqs_def str_def Plus_def Opt_def ws_def)


section \<open>The walk returns, and what it preserves\<close>

lemma twoLoops_total:
  "\<not> nullable r1 \<Longrightarrow> \<not> nullable r2 \<Longrightarrow> \<exists>syms. twoLoops t1 r1 t2 r2 c = Some syms"
  using execAll_total[of r1 c 0] execAll_total[of r2 c 0]
  by (auto simp: twoLoops_def pushAll_def)

lemma extractSymbols_total: "\<exists>syms. extractSymbols c l = Some syms"
  unfolding extractSymbols_def
  using twoLoops_total[OF patterns_not_nullable(1) patterns_not_nullable(2)]
        twoLoops_total[OF patterns_not_nullable(3) patterns_not_nullable(4)]
        twoLoops_total[OF patterns_not_nullable(5) patterns_not_nullable(6)]
  by simp

lemma indexFile_total: "\<exists>i'. indexFile h fp rp st rd i = Some i'"
proof (cases st)
  case None then show ?thesis by (simp add: indexFile_def)
next
  case (Some p)
  obtain sz mt where p: "p = (sz, mt)" by (cases p) auto
  show ?thesis
  proof (cases "getLanguageFromPath fp")
    case None with Some p show ?thesis by (simp add: indexFile_def)
  next
    case (Some lang)
    obtain syms where "extractSymbols (case rd of Some t \<Rightarrow> t | None \<Rightarrow> []) lang = Some syms"
      using extractSymbols_total by blast
    with Some \<open>st = Some p\<close> p show ?thesis by (simp add: indexFile_def Let_def)
  qed
qed

lemma scan_total:
  "\<exists>i'. scanDirectory h ps d r n i = Some i'"
  "\<exists>i'. scanEntries h ps d r es i = Some i'"
proof (induction h ps d r n i and h ps d r es i rule: scanDirectory_scanEntries.induct)
  case (6 h ps dirPath root name node rest index)
  let ?fp = "joinPath dirPath name"
  let ?rp = "relativeTo root ?fp"
  show ?case
  proof (cases "shouldIgnore h ps name ?rp (isDirectory node)")
    case True
    with "6.IH"(1)[OF refl refl True] show ?thesis by (simp add: Let_def)
  next
    case False
    have "\<exists>j. (case node of
                       Dir es \<Rightarrow> scanDirectory h ps ?fp root node index
                     | Unlistable \<Rightarrow> scanDirectory h ps ?fp root node index
                     | File st rd \<Rightarrow> indexFile h ?fp ?rp st rd index
                     | Other \<Rightarrow> Some index) = Some j"
    proof (cases node)
      case (File st rd) then show ?thesis using indexFile_total[of h ?fp ?rp st rd index] by simp
    next
      case (Dir es) then show ?thesis using "6.IH"(2)[OF refl refl False Dir] by simp
    next
      case Unlistable then show ?thesis by simp
    next
      case Other then show ?thesis by simp
    qed
    then obtain j where j: "(case node of
                       Dir es \<Rightarrow> scanDirectory h ps ?fp root node index
                     | Unlistable \<Rightarrow> scanDirectory h ps ?fp root node index
                     | File st rd \<Rightarrow> indexFile h ?fp ?rp st rd index
                     | Other \<Rightarrow> Some index) = Some j" ..
    from "6.IH"(4)[OF refl refl False j] j False show ?thesis by (simp add: Let_def)
  qed
qed simp_all

lemma scan_preserves:
  assumes step: "\<And>h fp rp st rd i i'. P h i \<Longrightarrow> indexFile h fp rp st rd i = Some i' \<Longrightarrow> P h i'"
  shows "scanDirectory h ps d r n i = Some i' \<Longrightarrow> P h i \<Longrightarrow> P h i'"
    and "scanEntries h ps d r es i = Some i' \<Longrightarrow> P h i \<Longrightarrow> P h i'"
proof (induction h ps d r n i and h ps d r es i arbitrary: i' and i'
       rule: scanDirectory_scanEntries.induct)
  case (6 h ps dirPath root name node rest index)
  let ?fp = "joinPath dirPath name"
  let ?rp = "relativeTo root ?fp"
  show ?case
  proof (cases "shouldIgnore h ps name ?rp (isDirectory node)")
    case True
    with "6.prems" "6.IH"(1)[OF refl refl True] show ?thesis by (simp add: Let_def)
  next
    case False
    from "6.prems"(1) False obtain j where
      j: "(case node of
                       Dir es \<Rightarrow> scanDirectory h ps ?fp root node index
                     | Unlistable \<Rightarrow> scanDirectory h ps ?fp root node index
                     | File st rd \<Rightarrow> indexFile h ?fp ?rp st rd index
                     | Other \<Rightarrow> Some index) = Some j"
      and rest: "scanEntries h ps dirPath root rest j = Some i'"
      by (auto simp: Let_def split: option.splits)
    have "P h j"
    proof (cases node)
      case (File st rd)
      with j have "indexFile h ?fp ?rp st rd index = Some j" by simp
      from step[OF "6.prems"(2) this] show ?thesis .
    next
      case (Dir es)
      with j have "scanDirectory h ps ?fp root node index = Some j" by simp
      from "6.IH"(2)[OF refl refl False Dir this "6.prems"(2)] show ?thesis .
    next
      case Unlistable with j "6.prems"(2) show ?thesis by simp
    next
      case Other with j "6.prems"(2) show ?thesis by simp
    qed
    from "6.IH"(4)[OF refl refl False j rest this] show ?thesis .
  qed
qed simp_all

lemma indexWorkspace_resolves:
  "\<exists>index. indexWorkspace h g wp root = Some (loadGitignore g root, Inr index)
     \<and> scanDirectory h (loadGitignore g root) wp wp root (emptyIndex h wp) = Some index"
  using scan_total(1)[of h "loadGitignore g root" wp wp root "emptyIndex h wp"]
  by (auto simp: indexWorkspace_def Let_def)

lemma indexWorkspace_invariant:
  assumes step: "\<And>h fp rp st rd i i'. P h i \<Longrightarrow> indexFile h fp rp st rd i = Some i' \<Longrightarrow> P h i'"
    and init: "P h (emptyIndex h wp)"
    and res: "indexWorkspace h g wp root = Some (ps, Inr index)"
  shows "P h index"
proof -
  from res have "scanDirectory h (loadGitignore g root) wp wp root (emptyIndex h wp) = Some index"
    by (auto simp: indexWorkspace_def Let_def split: option.splits)
  from scan_preserves(1)[of P, OF step this init] show ?thesis .
qed

lemma sum_assign:
  "sum_list (map snd (assign k v kvs)) + (case map_of kvs k of Some n \<Rightarrow> n | None \<Rightarrow> 0)
     = sum_list (map snd kvs) + (v :: nat)"
  by (induction kvs) auto

lemma map_of_assign:
  "map_of (assign k v kvs) k' = (if k' = k then Some v else map_of kvs k')"
  by (induction kvs) auto

lemma indexFile_cases:
  assumes "indexFile h fp rp st rd i = Some i'"
  shows "i' = i \<or>
     (\<exists>sz mt lang syms txt. st = Some (sz, mt) \<and> sz \<le> 512000
        \<and> getLanguageFromPath fp = Some lang
        \<and> txt = (case rd of Some t \<Rightarrow> t | None \<Rightarrow> [])
        \<and> extractSymbols txt lang = Some syms
        \<and> i' = i\<lparr> files := files i @
                    [\<lparr> fileId = newId h (length (files i)), path = fp, relativePath = rp,
                       language = lang, content = txt, fileSize = sz, lastModified = mt,
                       hash = simpleHash txt, symbols = syms \<rparr>],
                  totalSize := totalSize i + sz,
                  fileCount := fileCount i + 1,
                  languages := assign lang (languageCount i lang + 1) (languages i),
                  summary := \<lparr> functionsCount = functionsCount (summary i)
                                  + countKinds [''fn:'', ''method:''] syms,
                               classesCount = classesCount (summary i)
                                  + countKinds [''class:'', ''struct:''] syms,
                               totalCount = totalCount (summary i) + length syms \<rparr> \<rparr>)"
  using assms
  by (auto simp: indexFile_def Let_def languageCount_def split: option.splits prod.splits if_splits)

lemma indexFile_histogram:
  assumes "histogramSum i = fileCount i" "indexFile h fp rp st rd i = Some i'"
  shows "histogramSum i' = fileCount i'"
proof -
  from indexFile_cases[OF assms(2)] consider "i' = i"
    | lang where "languages i' = assign lang (languageCount i lang + 1) (languages i)"
                 "fileCount i' = fileCount i + 1"
    by auto
  then show ?thesis
  proof cases
    case 1 with assms(1) show ?thesis by simp
  next
    case 2
    from sum_assign[of lang "languageCount i lang + 1" "languages i"]
    have "sum_list (map snd (assign lang (languageCount i lang + 1) (languages i)))
            = sum_list (map snd (languages i)) + 1"
      by (simp add: languageCount_def)
    with 2 assms(1) show ?thesis by (simp add: histogramSum_def)
  qed
qed

lemma indexFile_sizes:
  assumes "\<forall>f \<in> set (files i). fileSize f \<le> 512000" "indexFile h fp rp st rd i = Some i'"
  shows "\<forall>f \<in> set (files i'). fileSize f \<le> 512000"
  using indexFile_cases[OF assms(2)] assms(1) by auto

lemma indexFile_oversized:
  "512000 < sz \<Longrightarrow> indexFile h fp rp (Some (sz, mt)) rd i = Some i"
  by (simp add: indexFile_def)

lemma scan_withoutOversized:
  "scanDirectory h ps d r (withoutOversized n) i = scanDirectory h ps d r n i"
  "scanEntries h ps d r (withoutOversizedEntries es) i = scanEntries h ps d r es i"
proof (induction h ps d r n i and h ps d r es i rule: scanDirectory_scanEntries.induct)
  case (6 h ps dirPath root name node rest index)
  let ?fp = "joinPath dirPath name"
  let ?rp = "relativeTo root ?fp"
  show ?case
  proof (cases "shouldIgnore h ps name ?rp (isDirectory node)")
    case True
    have dir: "isDirectory (withoutOversized node) = isDirectory node"
      by (cases node) (simp_all add: isDirectory_def)
    from True "6.IH"(1)[OF refl refl True] dir show ?thesis
      by (simp add: Let_def)
  next
    case False
    have dir: "isDirectory (withoutOversized node) = isDirectory node"
      by (cases node) (simp_all add: isDirectory_def)
    let ?visit = "\<lambda>nd. (case nd of
                       Dir es \<Rightarrow> scanDirectory h ps ?fp root nd index
                     | Unlistable \<Rightarrow> scanDirectory h ps ?fp root nd index
                     | File st rd \<Rightarrow> indexFile h ?fp ?rp st rd index
                     | Other \<Rightarrow> Some index)"
    obtain j where j: "?visit node = Some j"
      using scan_total(1)[of h ps ?fp root node index] indexFile_total[of h ?fp ?rp _ _ index]
      by (cases node) auto
    from "6.IH"(4)[OF refl refl False j]
    have rest: "scanEntries h ps dirPath root (withoutOversizedEntries rest) j
                  = scanEntries h ps dirPath root rest j" .
    have orig: "scanEntries h ps dirPath root ((name, node) # rest) index
                  = scanEntries h ps dirPath root rest j"
      using False j by (simp add: Let_def)
    show ?thesis
    proof (cases "oversized node")
      case True
      then obtain sz mt rd where node: "node = File (Some (sz, mt)) rd" and big: "512000 < sz"
        by (auto simp: oversized_def split: fnode.splits option.splits)
      from j node indexFile_oversized[OF big] have "j = index" by simp
      with True rest orig show ?thesis by simp
    next
      case small: False
      have "?visit (withoutOversized node) = Some j"
      proof (cases node)
        case (Dir es)
        with "6.IH"(2)[OF refl refl False Dir] j show ?thesis by simp
      qed (use j in simp_all)
      with small False dir rest orig show ?thesis by (simp add: Let_def)
    qed
  qed
qed simp_all


lemma getLanguage_a_py: "getLanguageFromPath ''/w/a.py'' = Some ''python''"
  by code_simp

lemma extractSymbols_def_foo: "extractSymbols ''def foo():'' ''python'' = Some [''fn:foo'']"
  by code_simp

lemma simpleHash_def_foo: "simpleHash ''def foo():'' = ''-5f732ab2''"
  by (simp add: simpleHash_def toString16_def hexDigit_def)

lemma indexFile_a_py:
  "indexFile exampleHost ''/w/a.py'' ''a.py'' (Some (40, 1700)) (Some ''def foo():'')
     (emptyIndex exampleHost ''/w'') = Some exampleIndex"
  by (simp add: indexFile_def getLanguage_a_py extractSymbols_def_foo simpleHash_def_foo
      emptyIndex_def exampleHost_def exampleIndex_def countKinds_def startsWith_def decDigit_def)


section \<open>Results on the indexer core\<close>

text \<open>
  C8. The values of the \<open>languages\<close> histogram of the index \<open>indexWorkspace\<close> resolves to
  sum to \<open>fileCount\<close>; and every step of the walk keeps this: \<open>indexFile\<close> either leaves
  the index as it is, or appends one file, adds one to \<open>fileCount\<close> and adds one to the
  count of that file's language and of no other.
\<close>

theorem languages_sum_fileCount:
  "(\<exists>ps index. indexWorkspace h g wp root = Some (ps, Inr index)
       \<and> histogramSum index = fileCount index)
   \<and> (\<forall>fp rp st rd i i'.
         histogramSum i = fileCount i \<and> indexFile h fp rp st rd i = Some i' \<longrightarrow>
           histogramSum i' = fileCount i' \<and>
           (i' = i \<or>
            (\<exists>f. files i' = files i @ [f] \<and> fileCount i' = fileCount i + 1
                 \<and> languageCount i' (language f) = languageCount i (language f) + 1
                 \<and> (\<forall>l. l \<noteq> language f \<longrightarrow> languageCount i' l = languageCount i l))))"
proof (intro conjI allI impI)
  obtain index where res: "indexWorkspace h g wp root = Some (loadGitignore g root, Inr index)"
    using indexWorkspace_resolves by blast
  have "histogramSum index = fileCount index"
  proof (rule indexWorkspace_invariant[where P = "\<lambda>h i. histogramSum i = fileCount i", OF _ _ res])
    show "histogramSum (emptyIndex h wp) = fileCount (emptyIndex h wp)"
      by (simp add: emptyIndex_def histogramSum_def)
  qed (rule indexFile_histogram)
  with res show "\<exists>ps index. indexWorkspace h g wp root = Some (ps, Inr index)
       \<and> histogramSum index = fileCount index" by blast
next
  fix fp rp st rd i i'
  assume a: "histogramSum i = fileCount i \<and> indexFile h fp rp st rd i = Some i'"
  then show "histogramSum i' = fileCount i'" using indexFile_histogram by blast
  from a indexFile_cases[of h fp rp st rd i i']
  show "i' = i \<or>
            (\<exists>f. files i' = files i @ [f] \<and> fileCount i' = fileCount i + 1
                 \<and> languageCount i' (language f) = languageCount i (language f) + 1
                 \<and> (\<forall>l. l \<noteq> language f \<longrightarrow> languageCount i' l = languageCount i l))"
    by (auto simp: languageCount_def map_of_assign)
qed

theorem languages_sum_fileCount_witness:
  "histogramSum (emptyIndex exampleHost ''/w'') = fileCount (emptyIndex exampleHost ''/w'')
   \<and> indexFile exampleHost ''/w/a.py'' ''a.py'' (Some (40, 1700)) (Some ''def foo():'')
        (emptyIndex exampleHost ''/w'') = Some exampleIndex
   \<and> histogramSum exampleIndex = fileCount exampleIndex
   \<and> languageCount exampleIndex ''python'' = languageCount (emptyIndex exampleHost ''/w'') ''python'' + 1"
proof -
  have h0: "histogramSum (emptyIndex exampleHost ''/w'') = fileCount (emptyIndex exampleHost ''/w'')"
    by (simp add: emptyIndex_def histogramSum_def)
  from languages_sum_fileCount[of exampleHost "[]" "''/w''" exampleTree] h0 indexFile_a_py
  have "histogramSum exampleIndex = fileCount exampleIndex" by blast
  moreover have "languageCount exampleIndex ''python''
                   = languageCount (emptyIndex exampleHost ''/w'') ''python'' + 1"
    by (simp add: languageCount_def exampleIndex_def emptyIndex_def)
  ultimately show ?thesis using h0 indexFile_a_py by simp
qed

lemma indexWorkspace_exampleTree:
  "indexWorkspace exampleHost [] ''/w'' exampleTree = Some ([], Inr exampleIndex)"
proof -
  have ign: "shouldIgnore exampleHost [] ''a.py'' ''a.py'' False = False"
            "shouldIgnore exampleHost [] ''node_modules'' ''node_modules'' True = True"
            "shouldIgnore exampleHost [] ''big.txt'' ''big.txt'' False = False"
            "shouldIgnore exampleHost [] ''big.py'' ''big.py'' False = False"
    by code_simp+
  have big: "indexFile exampleHost ''/w/big.txt'' ''big.txt'' (Some (614400, 1700)) (Some ''zzz'') exampleIndex
               = Some exampleIndex"
            "indexFile exampleHost ''/w/big.py'' ''big.py'' (Some (614400, 1700)) (Some ''def big():'') exampleIndex
               = Some exampleIndex"
    by (simp_all add: indexFile_oversized)
  show ?thesis
    by (simp add: indexWorkspace_def loadGitignore_def exampleTree_def Let_def joinPath_def
        relativeTo_def isDirectory_def ign big indexFile_a_py)
qed

text \<open>
  C7. A file whose \<open>stat\<close> size is above 500 KiB (512000 bytes) is left out: \<open>indexFile\<close>
  returns the index it was given, unchanged in every field; the walk of a tree gives the
  same index as the walk of the tree with every such file removed; and every file of the
  index \<open>indexWorkspace\<close> resolves to has a size of at most 512000.
\<close>

theorem oversized_files_excluded:
  "(\<forall>sz mt. 512000 < sz \<longrightarrow> indexFile h fp rp (Some (sz, mt)) rd i = Some i)
   \<and> scanDirectory h ps d r (withoutOversized n) i = scanDirectory h ps d r n i
   \<and> (\<exists>ps index. indexWorkspace h g wp root = Some (ps, Inr index)
         \<and> (\<forall>f \<in> set (files index). fileSize f \<le> 512000)
         \<and> scanDirectory h ps wp wp (withoutOversized root) (emptyIndex h wp) = Some index)"
proof (intro conjI allI impI)
  fix sz mt :: nat assume "512000 < sz"
  then show "indexFile h fp rp (Some (sz, mt)) rd i = Some i" by (rule indexFile_oversized)
next
  show "scanDirectory h ps d r (withoutOversized n) i = scanDirectory h ps d r n i"
    by (rule scan_withoutOversized(1))
next
  obtain index where res: "indexWorkspace h g wp root = Some (loadGitignore g root, Inr index)"
    and sc: "scanDirectory h (loadGitignore g root) wp wp root (emptyIndex h wp) = Some index"
    using indexWorkspace_resolves by blast
  have "\<forall>f \<in> set (files index). fileSize f \<le> 512000"
  proof (rule indexWorkspace_invariant[where P = "\<lambda>h i. \<forall>f \<in> set (files i). fileSize f \<le> 512000",
        OF _ _ res])
    show "\<forall>f \<in> set (files (emptyIndex h wp)). fileSize f \<le> 512000"
      by (simp add: emptyIndex_def)
  qed (rule indexFile_sizes)
  with res sc scan_withoutOversized(1)[of h "loadGitignore g root" wp wp root "emptyIndex h wp"]
  show "\<exists>ps index. indexWorkspace h g wp root = Some (ps, Inr index)
         \<and> (\<forall>f \<in> set (files index). fileSize f \<le> 512000)
         \<and> scanDirectory h ps wp wp (withoutOversized root) (emptyIndex h wp) = Some index"
    by auto
qed

theorem oversized_files_excluded_witness:
  "(512000 :: nat) < 614400
   \<and> indexFile exampleHost ''/w/big.py'' ''big.py'' (Some (614400, 1700)) (Some ''def big():'')
        exampleIndex = Some exampleIndex
   \<and> indexWorkspace exampleHost [] ''/w'' exampleTree = Some ([], Inr exampleIndex)
   \<and> map relativePath (files exampleIndex) = [''a.py'']
   \<and> map fileSize (files exampleIndex) = [40]
   \<and> fileSize (hd (files exampleIndex)) \<le> 512000"
proof -
  have big: "(512000 :: nat) < 614400" by simp
  from oversized_files_excluded[where h = exampleHost and fp = "''/w/big.py''" and rp = "''big.py''"
        and rd = "Some ''def big():''" and i = exampleIndex and g = "[]" and wp = "''/w''"
        and root = exampleTree]
  have a: "indexFile exampleHost ''/w/big.py'' ''big.py'' (Some (614400, 1700)) (Some ''def big():'')
        exampleIndex = Some exampleIndex"
    and b: "\<exists>ps index. indexWorkspace exampleHost [] ''/w'' exampleTree = Some (ps, Inr index)
         \<and> (\<forall>f \<in> set (files index). fileSize f \<le> 512000)"
    using big by blast+
  from b indexWorkspace_exampleTree have "\<forall>f \<in> set (files exampleIndex). fileSize f \<le> 512000"
    by auto
  then have "fileSize (hd (files exampleIndex)) \<le> 512000"
    by (simp add: exampleIndex_def)
  moreover have "map relativePath (files exampleIndex) = [''a.py'']"
    "map fileSize (files exampleIndex) = [40]"
    by (simp_all add: exampleIndex_def)
  ultimately show ?thesis using a big indexWorkspace_exampleTree by (intro conjI)
qed

text \<open>
  C1. What \<open>indexWorkspace\<close> does when the listing of the root fails (the root is missing
  or unreadable): the promise does not reject. It resolves to the empty index, with no
  files and \<open>fileCount\<close> 0, because \<open>scanDirectory\<close> catches the error of \<open>readdir\<close>
  for the root as for every other directory. For no root at all does the promise reject.
\<close>

theorem indexWorkspace_unlistable_root_resolves:
  "indexWorkspace h g wp Unlistable = Some (g, Inr (emptyIndex h wp))
   \<and> files (emptyIndex h wp) = [] \<and> fileCount (emptyIndex h wp) = 0
   \<and> (\<forall>root. \<exists>ps index. indexWorkspace h g wp root = Some (ps, Inr index))"
proof -
  have "indexWorkspace h g wp Unlistable = Some (g, Inr (emptyIndex h wp))"
    by (simp add: indexWorkspace_def loadGitignore_def)
  moreover have "\<forall>root. \<exists>ps index. indexWorkspace h g wp root = Some (ps, Inr index)"
    using indexWorkspace_resolves by blast
  ultimately show ?thesis by (simp add: emptyIndex_def)
qed


section \<open>Results on the index store\<close>

lemma writeContents_docs: "docs (writeContents env dir fs d) = docs d"
  by (induction fs arbitrary: d) (simp_all add: Let_def)

lemma writeContents_other:
  "\<forall>f \<in> set fs. joinPath dir (fileId f @ ''.txt'') \<noteq> p \<Longrightarrow>
     blobs (writeContents env dir fs d) p = blobs d p"
  by (induction fs arbitrary: d) (auto simp: Let_def)

lemma joinPath_txt_inj: "joinPath dir (a @ ''.txt'') = joinPath dir (b @ ''.txt'') \<longleftrightarrow> a = b"
  by (simp add: joinPath_def)

lemma writeContents_written:
  assumes "distinct (map fileId fs)" "f \<in> set fs"
    and "\<not> writeFails env (joinPath dir (fileId f @ ''.txt''))"
  shows "blobs (writeContents env dir fs d) (joinPath dir (fileId f @ ''.txt'')) = Some (content f)"
  using assms
proof (induction fs arbitrary: d)
  case Nil then show ?case by simp
next
  case (Cons x xs)
  show ?case
  proof (cases "f = x")
    case True
    from Cons.prems(1) have "\<forall>g \<in> set xs. fileId g \<noteq> fileId x"
      by (metis distinct.simps(2) image_eqI list.simps(9) set_map)
    then have "\<forall>g \<in> set xs. joinPath dir (fileId g @ ''.txt'') \<noteq> joinPath dir (fileId x @ ''.txt'')"
      by (simp add: joinPath_txt_inj)
    from writeContents_other[OF this] True Cons.prems(3) show ?thesis by (simp add: Let_def)
  next
    case False
    with Cons.prems have "f \<in> set xs" "distinct (map fileId xs)" by auto
    from Cons.IH[OF this(2) this(1) Cons.prems(3)] show ?thesis by (simp add: Let_def)
  qed
qed

lemma saveIndex_ok:
  assumes "\<not> writeFails env (indexFilePath sp (getWorkspaceName wp))"
    and "\<not> mkdirFails env (contentsDir sp (getWorkspaceName wp))"
  shows "saveIndex env sp d wp index =
           (writeContents env (contentsDir sp (getWorkspaceName wp)) (files index)
              (d\<lparr> docs := (docs d)(indexFilePath sp (getWorkspaceName wp) \<mapsto> compactIndex index) \<rparr>),
            None)"
  using assms by (simp add: saveIndex_def saveFileContents_def Let_def)

lemma saveIndex_doc:
  assumes "\<not> writeFails env (indexFilePath sp (getWorkspaceName wp))"
  shows "docs (fst (saveIndex env sp d wp index)) (indexFilePath sp (getWorkspaceName wp))
           = Some (compactIndex index)"
  using assms by (simp add: saveIndex_def saveFileContents_def Let_def writeContents_docs)

lemma getProp_files_compact: "getProp (compactIndex index) ''files'' = Some (JArr (map compactFile (files index)))"
  by (simp add: getProp_def compactIndex_def)

lemma loadIndex_after_save:
  assumes "\<not> writeFails env (indexFilePath sp (getWorkspaceName wp))"
    and "\<not> readFails env (indexFilePath sp (getWorkspaceName wp))"
  shows "loadIndex env sp (fst (saveIndex env sp d wp index)) wp =
           Some (JObj (assign ''files''
             (JArr (map (loadOne env (contentsDir sp (getWorkspaceName wp)) (fst (saveIndex env sp d wp index)))
                        (map compactFile (files index))))
             (spread (compactIndex index))))"
  using assms saveIndex_doc[OF assms(1), where d = d and index = index]
  by (simp add: loadIndex_def Let_def getProp_files_compact loadFileContents_def)

lemma loadOne_compact:
  "loadOne env dir d (compactFile f) =
     JObj [(''id'', JStr (fileId f)), (''path'', JStr (path f)),
           (''relativePath'', JStr (relativePath f)), (''language'', JStr (language f)),
           (''size'', JNum (fileSize f)), (''hash'', JStr (hash f)),
           (''content'', JStr (case (if readFails env (joinPath dir (fileId f @ ''.txt'')) then None
                                    else blobs d (joinPath dir (fileId f @ ''.txt''))) of
                                 Some t \<Rightarrow> t | None \<Rightarrow> []))]"
  by (simp add: loadOne_def compactFile_def getProp_def template_def spread_def Let_def
      split: option.splits)


lemma indexFile_ids:
  assumes "map fileId (files i) = map (newId h) [0..<length (files i)]"
    and "indexFile h fp rp st rd i = Some i'"
  shows "map fileId (files i') = map (newId h) [0..<length (files i')]"
  using indexFile_cases[OF assms(2)] assms(1) by auto

lemma indexWorkspace_ids:
  assumes "indexWorkspace h g wp root = Some (ps, Inr index)"
  shows "map fileId (files index) = map (newId h) [0..<length (files index)]"
proof (rule indexWorkspace_invariant[where P = "\<lambda>h i. map fileId (files i) = map (newId h) [0..<length (files i)]",
      OF _ _ assms])
  show "map fileId (files (emptyIndex h wp)) = map (newId h) [0..<length (files (emptyIndex h wp))]"
    by (simp add: emptyIndex_def)
qed (rule indexFile_ids)

lemma writeContents_holds:
  "f \<in> set fs \<Longrightarrow> \<forall>g \<in> set fs. \<not> writeFails env (joinPath dir (fileId g @ ''.txt'')) \<Longrightarrow>
     \<exists>g \<in> set fs. fileId g = fileId f
        \<and> blobs (writeContents env dir fs d) (joinPath dir (fileId f @ ''.txt'')) = Some (content g)"
proof (induction fs arbitrary: d f)
  case Nil then show ?case by simp
next
  case (Cons x xs)
  show ?case
  proof (cases "\<exists>g \<in> set xs. fileId g = fileId f")
    case True
    then obtain g where g: "g \<in> set xs" "fileId g = fileId f" by blast
    from Cons.prems(2) have ok: "\<forall>g \<in> set xs. \<not> writeFails env (joinPath dir (fileId g @ ''.txt''))"
      by simp
    from Cons.IH[OF g(1) ok] g(2) show ?thesis by (auto simp: Let_def)
  next
    case False
    with Cons.prems(1) have fx: "f = x" by auto
    from False fx have "\<forall>g \<in> set xs. joinPath dir (fileId g @ ''.txt'') \<noteq> joinPath dir (fileId x @ ''.txt'')"
      by (simp add: joinPath_txt_inj)
    from writeContents_other[OF this] fx Cons.prems(2) show ?thesis by (simp add: Let_def)
  qed
qed

lemma roundtrip_general:
  assumes meta: "\<not> writeFails env (indexFilePath sp (getWorkspaceName wp))"
              "\<not> readFails env (indexFilePath sp (getWorkspaceName wp))"
              "\<not> mkdirFails env (contentsDir sp (getWorkspaceName wp))"
    and blobsOk: "\<forall>f \<in> set (files index).
                    \<not> writeFails env (blobPath sp (getWorkspaceName wp) (fileId f))
                    \<and> \<not> readFails env (blobPath sp (getWorkspaceName wp) (fileId f))"
  shows "\<exists>d' loaded fs recs.
           saveIndex env sp d wp index = (d', None)
         \<and> loadIndex env sp d' wp = Some loaded
         \<and> getProp loaded ''files'' = Some (JArr fs)
         \<and> map (\<lambda>f. (getProp f ''relativePath'', getProp f ''language'', getProp f ''size'',
                      getProp f ''hash'')) fs
             = map (\<lambda>f. (Some (JStr (relativePath f)), Some (JStr (language f)),
                          Some (JNum (fileSize f)), Some (JStr (hash f)))) (files index)
         \<and> (distinct (map fileId (files index)) \<longrightarrow>
               map (\<lambda>f. getProp f ''content'') fs
                 = map (\<lambda>f. Some (JStr (content f))) (files index))
         \<and> Option.bind (docs d' (indexFilePath sp (getWorkspaceName wp))) (\<lambda>meta. getProp meta ''files'')
             = Some (JArr recs)
         \<and> (\<forall>r \<in> set recs. \<exists>f \<in> set (files index).
               getProp r ''id'' = Some (JStr (fileId f))
               \<and> blobs d' (blobPath sp (getWorkspaceName wp) (fileId f)) = Some (content f))"
proof -
  let ?ws = "getWorkspaceName wp"
  let ?dir = "contentsDir sp ?ws"
  let ?d0 = "d\<lparr> docs := (docs d)(indexFilePath sp ?ws \<mapsto> compactIndex index) \<rparr>"
  let ?d' = "writeContents env ?dir (files index) ?d0"
  have sv: "saveIndex env sp d wp index = (?d', None)"
    using saveIndex_ok[OF meta(1) meta(3)] .
  have wok: "\<forall>g \<in> set (files index). \<not> writeFails env (joinPath ?dir (fileId g @ ''.txt''))"
    using blobsOk by (simp add: blobPath_def)
  have ld: "loadIndex env sp ?d' wp =
           Some (JObj (assign ''files''
             (JArr (map (loadOne env ?dir ?d') (map compactFile (files index))))
             (spread (compactIndex index))))"
    using loadIndex_after_save[OF meta(1) meta(2), of d index] sv by simp
  let ?fs = "map (loadOne env ?dir ?d') (map compactFile (files index))"
  have fields: "map (\<lambda>f. (getProp f ''relativePath'', getProp f ''language'', getProp f ''size'',
                      getProp f ''hash'')) ?fs
             = map (\<lambda>f. (Some (JStr (relativePath f)), Some (JStr (language f)),
                          Some (JNum (fileSize f)), Some (JStr (hash f)))) (files index)"
    by (simp add: loadOne_compact getProp_def)
  have cont: "distinct (map fileId (files index)) \<longrightarrow>
               map (\<lambda>f. getProp f ''content'') ?fs
                 = map (\<lambda>f. Some (JStr (content f))) (files index)"
  proof
    assume ids: "distinct (map fileId (files index))"
    have "blobs ?d' (joinPath ?dir (fileId f @ ''.txt'')) = Some (content f)"
      if "f \<in> set (files index)" for f
      using writeContents_written[OF ids that] wok that by simp
    then show "map (\<lambda>f. getProp f ''content'') ?fs
                 = map (\<lambda>f. Some (JStr (content f))) (files index)"
      using blobsOk by (simp add: loadOne_compact getProp_def blobPath_def)
  qed
  have gp: "getProp (JObj (assign ''files'' (JArr ?fs) (spread (compactIndex index)))) ''files''
              = Some (JArr ?fs)"
    by (simp add: getProp_def map_of_assign)
  have doc: "Option.bind (docs ?d' (indexFilePath sp ?ws)) (\<lambda>meta. getProp meta ''files'')
               = Some (JArr (map compactFile (files index)))"
    by (simp add: writeContents_docs getProp_files_compact)
  have recs: "\<forall>r \<in> set (map compactFile (files index)). \<exists>f \<in> set (files index).
               getProp r ''id'' = Some (JStr (fileId f))
               \<and> blobs ?d' (blobPath sp ?ws (fileId f)) = Some (content f)"
  proof
    fix r assume "r \<in> set (map compactFile (files index))"
    then obtain g where g: "g \<in> set (files index)" "r = compactFile g" by auto
    from writeContents_holds[OF g(1) wok, of ?d0] obtain f where
      f: "f \<in> set (files index)" "fileId f = fileId g"
         "blobs ?d' (joinPath ?dir (fileId g @ ''.txt'')) = Some (content f)" by blast
    from g(2) f show "\<exists>f \<in> set (files index).
               getProp r ''id'' = Some (JStr (fileId f))
               \<and> blobs ?d' (blobPath sp ?ws (fileId f)) = Some (content f)"
      by (intro bexI[of _ f]) (simp_all add: compactFile_def getProp_def blobPath_def)
  qed
  show ?thesis
    by (intro exI[of _ ?d'] exI[of _ "JObj (assign ''files'' (JArr ?fs) (spread (compactIndex index)))"]
              exI[of _ ?fs] exI[of _ "map compactFile (files index)"] conjI)
       (rule sv ld gp fields cont doc recs)+
qed

lemma indexWorkspace_twoTree:
  "indexWorkspace h [] ''/w'' twoTree = Some ([], Inr (twoIndex h))"
proof -
  have ign: "shouldIgnore h [] ''a.md'' ''a.md'' False = False"
            "shouldIgnore h [] ''b.md'' ''b.md'' False = False"
    by code_simp+
  have lang: "getLanguageFromPath ''/w/a.md'' = Some ''markdown''"
             "getLanguageFromPath ''/w/b.md'' = Some ''markdown''"
    by code_simp+
  have sy: "extractSymbols ''AA'' ''markdown'' = Some []" "extractSymbols ''BB'' ''markdown'' = Some []"
    by (simp_all add: extractSymbols_def)
  have hs: "simpleHash ''AA'' = ''820''" "simpleHash ''BB'' = ''840''"
    by (simp_all add: simpleHash_def toString16_def hexDigit_def)
  show ?thesis
    by (simp add: indexWorkspace_def loadGitignore_def twoTree_def twoIndex_def Let_def joinPath_def
        relativeTo_def isDirectory_def ign indexFile_def lang sy hs emptyIndex_def countKinds_def)
qed

text \<open>
  C3, as the code has it. Round trip. Take the index \<open>indexWorkspace\<close> resolves to, and
  let no write or read of the metadata document and of the blobs of its files fail. Then
  \<open>saveIndex\<close> succeeds and \<open>loadIndex\<close> on the same root returns an index whose files
  are, in the same order, the files of the original with the same \<open>relativePath\<close>,
  \<open>language\<close>, \<open>size\<close> and \<open>hash\<close>; the \<open>id\<close> of every record of the persisted metadata
  document names a blob that holds the content of a file with that identifier; and, when
  the identifiers of the files of the index are pairwise distinct, every file comes back
  with its own \<open>content\<close>, character for character. The identifiers are the ones the
  host handed out during the walk, in order; nothing in the walk compares them.
\<close>

theorem save_load_roundtrip:
  assumes produced: "indexWorkspace h g wp root = Some (ps, Inr index)"
    and meta: "\<not> writeFails env (indexFilePath sp (getWorkspaceName wp))"
              "\<not> readFails env (indexFilePath sp (getWorkspaceName wp))"
              "\<not> mkdirFails env (contentsDir sp (getWorkspaceName wp))"
    and blobsOk: "\<forall>f \<in> set (files index).
                    \<not> writeFails env (blobPath sp (getWorkspaceName wp) (fileId f))
                    \<and> \<not> readFails env (blobPath sp (getWorkspaceName wp) (fileId f))"
  shows "map fileId (files index) = map (newId h) [0..<length (files index)]
       \<and> (\<exists>d' loaded fs recs.
           saveIndex env sp d wp index = (d', None)
         \<and> loadIndex env sp d' wp = Some loaded
         \<and> getProp loaded ''files'' = Some (JArr fs)
         \<and> map (\<lambda>f. (getProp f ''relativePath'', getProp f ''language'', getProp f ''size'',
                      getProp f ''hash'')) fs
             = map (\<lambda>f. (Some (JStr (relativePath f)), Some (JStr (language f)),
                          Some (JNum (fileSize f)), Some (JStr (hash f)))) (files index)
         \<and> (distinct (map fileId (files index)) \<longrightarrow>
               map (\<lambda>f. getProp f ''content'') fs
                 = map (\<lambda>f. Some (JStr (content f))) (files index))
         \<and> Option.bind (docs d' (indexFilePath sp (getWorkspaceName wp))) (\<lambda>meta. getProp meta ''files'')
             = Some (JArr recs)
         \<and> (\<forall>r \<in> set recs. \<exists>f \<in> set (files index).
               getProp r ''id'' = Some (JStr (fileId f))
               \<and> blobs d' (blobPath sp (getWorkspaceName wp) (fileId f)) = Some (content f)))"
proof (rule conjI)
  show "map fileId (files index) = map (newId h) [0..<length (files index)]"
    by (rule indexWorkspace_ids[OF produced])
qed (rule roundtrip_general[OF meta blobsOk])

theorem save_load_roundtrip_witness:
  "indexWorkspace exampleHost [] ''/w'' twoTree = Some ([], Inr (twoIndex exampleHost))
   \<and> map fileId (files (twoIndex exampleHost)) = [''file_0'', ''file_1'']
   \<and> distinct (map fileId (files (twoIndex exampleHost)))
   \<and> \<not> writeFails noFailures (indexFilePath ''/store'' (getWorkspaceName ''/w''))
   \<and> \<not> readFails noFailures (indexFilePath ''/store'' (getWorkspaceName ''/w''))
   \<and> \<not> mkdirFails noFailures (contentsDir ''/store'' (getWorkspaceName ''/w''))
   \<and> \<not> writeFails noFailures (blobPath ''/store'' (getWorkspaceName ''/w'') ''file_0'')
   \<and> \<not> readFails noFailures (blobPath ''/store'' (getWorkspaceName ''/w'') ''file_0'')
   \<and> \<not> writeFails noFailures (blobPath ''/store'' (getWorkspaceName ''/w'') ''file_1'')
   \<and> \<not> readFails noFailures (blobPath ''/store'' (getWorkspaceName ''/w'') ''file_1'')
   \<and> (\<exists>d' loaded fs.
           saveIndex noFailures ''/store'' emptyDisk ''/w'' (twoIndex exampleHost) = (d', None)
         \<and> loadIndex noFailures ''/store'' d' ''/w'' = Some loaded
         \<and> getProp loaded ''files'' = Some (JArr fs)
         \<and> map (\<lambda>f. getProp f ''relativePath'') fs = [Some (JStr ''a.md''), Some (JStr ''b.md'')]
         \<and> map (\<lambda>f. getProp f ''content'') fs = [Some (JStr ''AA''), Some (JStr ''BB'')])"
proof -
  let ?ix = "twoIndex exampleHost"
  have ids: "map fileId (files ?ix) = [''file_0'', ''file_1'']"
    by (simp add: twoIndex_def exampleHost_def decDigit_def)
  then have fresh: "distinct (map fileId (files ?ix))" by simp
  have io: "\<not> writeFails noFailures (indexFilePath ''/store'' (getWorkspaceName ''/w''))"
           "\<not> readFails noFailures (indexFilePath ''/store'' (getWorkspaceName ''/w''))"
           "\<not> mkdirFails noFailures (contentsDir ''/store'' (getWorkspaceName ''/w''))"
    by (simp_all add: noFailures_def)
  have bl: "\<forall>f \<in> set (files ?ix).
         \<not> writeFails noFailures (blobPath ''/store'' (getWorkspaceName ''/w'') (fileId f))
         \<and> \<not> readFails noFailures (blobPath ''/store'' (getWorkspaceName ''/w'') (fileId f))"
    by (simp add: noFailures_def)
  from save_load_roundtrip[where d = emptyDisk, OF indexWorkspace_twoTree[of exampleHost] io bl] fresh
  obtain d' loaded fs where sv: "saveIndex noFailures ''/store'' emptyDisk ''/w'' ?ix = (d', None)"
    and ld: "loadIndex noFailures ''/store'' d' ''/w'' = Some loaded"
    and gp: "getProp loaded ''files'' = Some (JArr fs)"
    and eq: "map (\<lambda>f. (getProp f ''relativePath'', getProp f ''language'', getProp f ''size'',
                      getProp f ''hash'')) fs
             = map (\<lambda>f. (Some (JStr (relativePath f)), Some (JStr (language f)),
                          Some (JNum (fileSize f)), Some (JStr (hash f)))) (files ?ix)"
    and ct: "map (\<lambda>f. getProp f ''content'') fs
                 = map (\<lambda>f. Some (JStr (content f))) (files ?ix)"
    by blast
  from eq have "map (fst \<circ> (\<lambda>f. (getProp f ''relativePath'', getProp f ''language'', getProp f ''size'',
                      getProp f ''hash''))) fs
             = map (fst \<circ> (\<lambda>f. (Some (JStr (relativePath f)), Some (JStr (language f)),
                          Some (JNum (fileSize f)), Some (JStr (hash f))))) (files ?ix)"
    unfolding map_map[symmetric] by simp
  then have rp: "map (\<lambda>f. getProp f ''relativePath'') fs = [Some (JStr ''a.md''), Some (JStr ''b.md'')]"
    by (simp add: comp_def twoIndex_def)
  from ct have cn: "map (\<lambda>f. getProp f ''content'') fs = [Some (JStr ''AA''), Some (JStr ''BB'')]"
    by (simp add: twoIndex_def)
  from sv ld gp rp cn have ex: "\<exists>d' loaded fs.
           saveIndex noFailures ''/store'' emptyDisk ''/w'' ?ix = (d', None)
         \<and> loadIndex noFailures ''/store'' d' ''/w'' = Some loaded
         \<and> getProp loaded ''files'' = Some (JArr fs)
         \<and> map (\<lambda>f. getProp f ''relativePath'') fs = [Some (JStr ''a.md''), Some (JStr ''b.md'')]
         \<and> map (\<lambda>f. getProp f ''content'') fs = [Some (JStr ''AA''), Some (JStr ''BB'')]"
    by (intro exI[of _ d'] exI[of _ loaded] exI[of _ fs] conjI)
  have nf: "\<not> writeFails noFailures (blobPath ''/store'' (getWorkspaceName ''/w'') ''file_0'')"
    "\<not> readFails noFailures (blobPath ''/store'' (getWorkspaceName ''/w'') ''file_0'')"
    "\<not> writeFails noFailures (blobPath ''/store'' (getWorkspaceName ''/w'') ''file_1'')"
    "\<not> readFails noFailures (blobPath ''/store'' (getWorkspaceName ''/w'') ''file_1'')"
    by (simp_all add: noFailures_def)
  from indexWorkspace_twoTree[of exampleHost] ids fresh io nf ex show ?thesis by (intro conjI)
qed

text \<open>
  C3, as stated, fails. The identifier of a file is drawn from the clock and a random
  number, and nothing keeps two files of one walk from drawing the same one. With a host
  that does so, the walk of two files \<open>a.md\<close> (content \<open>AA\<close>) and \<open>b.md\<close> (content \<open>BB\<close>)
  resolves to an index whose two files share their identifier; every write and read
  succeeds, the blob of the first is overwritten by the blob of the second, and \<open>a.md\<close>
  is loaded with the content of \<open>b.md\<close>.
\<close>

theorem save_load_clashing_ids_counterexample:
  "indexWorkspace clashHost [] ''/w'' twoTree = Some ([], Inr (twoIndex clashHost))
   \<and> map relativePath (files (twoIndex clashHost)) = [''a.md'', ''b.md'']
   \<and> map content (files (twoIndex clashHost)) = [''AA'', ''BB'']
   \<and> map fileId (files (twoIndex clashHost)) = [''file_7_x'', ''file_7_x'']
   \<and> (\<exists>d' loaded fs.
           saveIndex noFailures ''/store'' emptyDisk ''/w'' (twoIndex clashHost) = (d', None)
         \<and> loadIndex noFailures ''/store'' d' ''/w'' = Some loaded
         \<and> getProp loaded ''files'' = Some (JArr fs)
         \<and> map (\<lambda>f. getProp f ''relativePath'') fs = [Some (JStr ''a.md''), Some (JStr ''b.md'')]
         \<and> map (\<lambda>f. getProp f ''content'') fs = [Some (JStr ''BB''), Some (JStr ''BB'')]
         \<and> map (\<lambda>f. getProp f ''content'') fs
             \<noteq> map (\<lambda>f. Some (JStr (content f))) (files (twoIndex clashHost)))"
proof -
  let ?ix = "twoIndex clashHost"
  let ?p = "blobPath ''/store'' (getWorkspaceName ''/w'') ''file_7_x''"
  let ?d0 = "emptyDisk\<lparr> docs := (docs emptyDisk)(indexFilePath ''/store'' (getWorkspaceName ''/w'') \<mapsto> compactIndex ?ix) \<rparr>"
  let ?d' = "writeContents noFailures (contentsDir ''/store'' (getWorkspaceName ''/w'')) (files ?ix) ?d0"
  have io: "\<not> writeFails noFailures (indexFilePath ''/store'' (getWorkspaceName ''/w''))"
           "\<not> readFails noFailures (indexFilePath ''/store'' (getWorkspaceName ''/w''))"
           "\<not> mkdirFails noFailures (contentsDir ''/store'' (getWorkspaceName ''/w''))"
    by (simp_all add: noFailures_def)
  have sv: "saveIndex noFailures ''/store'' emptyDisk ''/w'' ?ix = (?d', None)"
    using saveIndex_ok[OF io(1) io(3)] .
  have bl: "blobs ?d' (joinPath (contentsDir ''/store'' (getWorkspaceName ''/w'')) (''file_7_x'' @ ''.txt''))
              = Some ''BB''"
    by (simp add: twoIndex_def clashHost_def noFailures_def Let_def)
  let ?fs = "map (loadOne noFailures (contentsDir ''/store'' (getWorkspaceName ''/w'')) ?d')
                 (map compactFile (files ?ix))"
  have ld: "loadIndex noFailures ''/store'' ?d' ''/w'' =
           Some (JObj (assign ''files'' (JArr ?fs) (spread (compactIndex ?ix))))"
    using loadIndex_after_save[OF io(1) io(2), of emptyDisk ?ix] sv by simp
  have gp: "getProp (JObj (assign ''files'' (JArr ?fs) (spread (compactIndex ?ix)))) ''files''
              = Some (JArr ?fs)"
    by (simp add: getProp_def map_of_assign)
  have ids: "map fileId (files ?ix) = [''file_7_x'', ''file_7_x'']"
    by (simp add: twoIndex_def clashHost_def)
  have rp: "map (\<lambda>f. getProp f ''relativePath'') ?fs = [Some (JStr ''a.md''), Some (JStr ''b.md'')]"
    by (simp add: loadOne_compact getProp_def twoIndex_def)
  have ct: "map (\<lambda>f. getProp f ''content'') ?fs = [Some (JStr ''BB''), Some (JStr ''BB'')]"
    using bl ids
    by (simp add: loadOne_compact getProp_def twoIndex_def clashHost_def noFailures_def)
  have orig: "map (\<lambda>f. Some (JStr (content f))) (files ?ix) = [Some (JStr ''AA''), Some (JStr ''BB'')]"
    by (simp add: twoIndex_def)
  have ne: "map (\<lambda>f. getProp f ''content'') ?fs \<noteq> map (\<lambda>f. Some (JStr (content f))) (files ?ix)"
    unfolding ct orig by simp
  have ex: "\<exists>d' loaded fs.
           saveIndex noFailures ''/store'' emptyDisk ''/w'' ?ix = (d', None)
         \<and> loadIndex noFailures ''/store'' d' ''/w'' = Some loaded
         \<and> getProp loaded ''files'' = Some (JArr fs)
         \<and> map (\<lambda>f. getProp f ''relativePath'') fs = [Some (JStr ''a.md''), Some (JStr ''b.md'')]
         \<and> map (\<lambda>f. getProp f ''content'') fs = [Some (JStr ''BB''), Some (JStr ''BB'')]
         \<and> map (\<lambda>f. getProp f ''content'') fs
             \<noteq> map (\<lambda>f. Some (JStr (content f))) (files ?ix)"
    by (intro exI[of _ ?d'] exI[of _ "JObj (assign ''files'' (JArr ?fs) (spread (compactIndex ?ix)))"]
              exI[of _ ?fs] conjI) (rule sv ld gp rp ct ne)+
  have "map relativePath (files ?ix) = [''a.md'', ''b.md'']" "map content (files ?ix) = [''AA'', ''BB'']"
    by (simp_all add: twoIndex_def)
  with indexWorkspace_twoTree[of clashHost] ids ex show ?thesis by (intro conjI)
qed

text \<open>
  C10. What persistence drops. When the metadata document can be written and read back,
  the value \<open>loadIndex\<close> returns after \<open>saveIndex\<close> has no \<open>summary\<close>: its properties are
  exactly \<open>rootPath\<close>, \<open>fileCount\<close>, \<open>totalSize\<close>, \<open>lastIndexed\<close>, \<open>languages\<close> and
  \<open>files\<close>; and each of its files has neither \<open>symbols\<close> nor \<open>lastModified\<close>: its
  properties are exactly \<open>id\<close>, \<open>path\<close>, \<open>relativePath\<close>, \<open>language\<close>, \<open>size\<close>, \<open>hash\<close>
  and \<open>content\<close>.
\<close>

theorem loaded_index_lacks_fields:
  assumes "\<not> writeFails env (indexFilePath sp (getWorkspaceName wp))"
    and "\<not> readFails env (indexFilePath sp (getWorkspaceName wp))"
  shows "\<exists>loaded fs.
           loadIndex env sp (fst (saveIndex env sp d wp index)) wp = Some loaded
         \<and> getProp loaded ''summary'' = None
         \<and> map fst (spread loaded)
             = [''rootPath'', ''fileCount'', ''totalSize'', ''lastIndexed'', ''languages'', ''files'']
         \<and> getProp loaded ''files'' = Some (JArr fs)
         \<and> length fs = length (files index)
         \<and> (\<forall>f \<in> set fs.
               getProp f ''symbols'' = None \<and> getProp f ''lastModified'' = None
               \<and> map fst (spread f)
                   = [''id'', ''path'', ''relativePath'', ''language'', ''size'', ''hash'',
                      ''content''])"
proof -
  let ?d' = "fst (saveIndex env sp d wp index)"
  let ?fs = "map (loadOne env (contentsDir sp (getWorkspaceName wp)) ?d') (map compactFile (files index))"
  let ?loaded = "JObj (assign ''files'' (JArr ?fs) (spread (compactIndex index)))"
  have ld: "loadIndex env sp ?d' wp = Some ?loaded"
    using loadIndex_after_save[OF assms] .
  have top: "getProp ?loaded ''summary'' = None"
       "map fst (spread ?loaded)
          = [''rootPath'', ''fileCount'', ''totalSize'', ''lastIndexed'', ''languages'', ''files'']"
       "getProp ?loaded ''files'' = Some (JArr ?fs)"
    by (simp_all add: getProp_def spread_def compactIndex_def)
  have each: "\<forall>f \<in> set ?fs.
               getProp f ''symbols'' = None \<and> getProp f ''lastModified'' = None
               \<and> map fst (spread f)
                   = [''id'', ''path'', ''relativePath'', ''language'', ''size'', ''hash'',
                      ''content'']"
    by (auto simp: loadOne_compact getProp_def spread_def)
  have len: "length ?fs = length (files index)" by simp
  show ?thesis
    by (intro exI[of _ ?loaded] exI[of _ ?fs] conjI) (rule ld top each len)+
qed

theorem loaded_index_lacks_fields_witness:
  "\<not> writeFails noFailures (indexFilePath ''/store'' (getWorkspaceName ''/w''))
   \<and> \<not> readFails noFailures (indexFilePath ''/store'' (getWorkspaceName ''/w''))
   \<and> symbols (hd (files exampleIndex)) = [''fn:foo'']
   \<and> totalCount (summary exampleIndex) = 1
   \<and> (\<exists>loaded f.
         loadIndex noFailures ''/store''
           (fst (saveIndex noFailures ''/store'' emptyDisk ''/w'' exampleIndex)) ''/w'' = Some loaded
       \<and> getProp loaded ''summary'' = None
       \<and> getProp loaded ''files'' = Some (JArr [f])
       \<and> getProp f ''symbols'' = None \<and> getProp f ''lastModified'' = None)"
proof -
  have io: "\<not> writeFails noFailures (indexFilePath ''/store'' (getWorkspaceName ''/w''))"
           "\<not> readFails noFailures (indexFilePath ''/store'' (getWorkspaceName ''/w''))"
    by (simp_all add: noFailures_def)
  from loaded_index_lacks_fields[OF io, of emptyDisk exampleIndex]
  obtain loaded fs where l:
    "loadIndex noFailures ''/store''
           (fst (saveIndex noFailures ''/store'' emptyDisk ''/w'' exampleIndex)) ''/w'' = Some loaded"
    "getProp loaded ''summary'' = None"
    "getProp loaded ''files'' = Some (JArr fs)"
    "length fs = length (files exampleIndex)"
    "\<forall>f \<in> set fs. getProp f ''symbols'' = None \<and> getProp f ''lastModified'' = None"
    by blast
  from l(4) obtain f where fs: "fs = [f]"
    by (cases fs) (auto simp: exampleIndex_def)
  from l(1) l(2) l(3) l(5) fs have "\<exists>loaded f.
         loadIndex noFailures ''/store''
           (fst (saveIndex noFailures ''/store'' emptyDisk ''/w'' exampleIndex)) ''/w'' = Some loaded
       \<and> getProp loaded ''summary'' = None
       \<and> getProp loaded ''files'' = Some (JArr [f])
       \<and> getProp f ''symbols'' = None \<and> getProp f ''lastModified'' = None"
    by (intro exI[of _ loaded] exI[of _ f] conjI) simp_all
  moreover have "symbols (hd (files exampleIndex)) = [''fn:foo'']"
    "totalCount (summary exampleIndex) = 1"
    by (simp_all add: exampleIndex_def)
  ultimately show ?thesis using io by (intro conjI)
qed


section \<open>Results on the change watcher\<close>

lemma run_Nil [simp]: "run w [] = w" by (simp add: run_def)
lemma run_Cons [simp]: "run w (te # tes) = run (step w te) tes" by (simp add: run_def)











text \<open>
  C9. A watcher that holds no snapshot. When its timer fires, the callback adds nothing to
  what the collaborators see (no walk, no save, no notification) and changes no field of
  the watcher; \<open>forceReindex\<close>, when it does not reject, does the same except for
  clearing \<open>pendingChanges\<close>. With no run in flight this stays so whatever events
  follow: no walk is ever started, nothing is saved, the subscriber is never notified and
  the watcher never holds a snapshot.
\<close>

theorem no_snapshot_no_reindex:
  assumes none: "currentIndex w = None"
  shows "outward (timerCallback w) = outward w
       \<and> (timerCallback w) \<lparr> effects := effects w \<rparr> = w
       \<and> (\<forall>logs w'. forceReindex w = (logs, Inr w') \<longrightarrow>
             outward w' = outward w
             \<and> (w' = w \<or> w' \<lparr> effects := effects w, pendingChanges := pendingChanges w \<rparr> = w))
       \<and> (\<not> isIndexing w \<longrightarrow>
             outward (run w tes) = outward w \<and> currentIndex (run w tes) = None
             \<and> \<not> isIndexing (run w tes))"
proof -
  have rw: "reindexWorkspace v = v\<lparr> effects := effects v @ [ReindexRequested] \<rparr>"
    if "currentIndex v = None" for v
    using that by (simp add: reindexWorkspace_def Let_def split: option.splits)
  have tc: "outward (timerCallback v) = outward v \<and> (timerCallback v) \<lparr> effects := effects v \<rparr> = v"
    if "currentIndex v = None" for v
    using rw[OF that] by (simp add: timerCallback_def outward_def)
  have fr: "\<forall>logs w'. forceReindex w = (logs, Inr w') \<longrightarrow>
             outward w' = outward w
             \<and> (w' = w \<or> w' \<lparr> effects := effects w, pendingChanges := pendingChanges w \<rparr> = w)"
    using rw[of "w\<lparr> pendingChanges := False \<rparr>"] none
    by (auto simp: forceReindex_def outward_def split: option.splits if_splits)
  have st: "outward (step v te) = outward v \<and> currentIndex (step v te) = None \<and> \<not> isIndexing (step v te)"
    if "currentIndex v = None" "\<not> isIndexing v" for v te
  proof -
    have fd: "outward (fireDue (fst te) v) = outward v \<and> currentIndex (fireDue (fst te) v) = None
              \<and> \<not> isIndexing (fireDue (fst te) v)"
      using that rw[of "v\<lparr> debounceTimer := None \<rparr>"]
      by (auto simp: fireDue_def timerCallback_def outward_def split: option.splits)
    let ?v1 = "fireDue (fst te) v"
    from fd rw[of "?v1\<lparr> pendingChanges := False \<rparr>"] show ?thesis
      by (cases "snd te")
         (auto simp: step_def Let_def onFileChanged_def forceReindex_def outward_def
               split: option.splits sum.splits)
  qed
  have rn: "outward (run v tes) = outward v \<and> currentIndex (run v tes) = None \<and> \<not> isIndexing (run v tes)"
    if "currentIndex v = None" "\<not> isIndexing v" for v
    using that
  proof (induction tes arbitrary: v)
    case Nil then show ?case by simp
  next
    case (Cons te tes)
    from st[OF Cons.prems] Cons.IH[of "step v te"] show ?case by simp
  qed
  from tc[OF none] fr rn[OF none] show ?thesis by blast
qed


theorem no_snapshot_no_reindex_witness:
  "currentIndex (newWatcher (Some ''/w'')) = None
   \<and> \<not> isIndexing (newWatcher (Some ''/w''))
   \<and> forceReindex (newWatcher (Some ''/w''))
       = ([''Force re-index requested''],
          Inr ((newWatcher (Some ''/w'')) \<lparr> effects := [ReindexRequested] \<rparr>))
   \<and> outward ((newWatcher (Some ''/w'')) \<lparr> effects := [ReindexRequested] \<rparr>) = []
   \<and> outward (run (newWatcher (Some ''/w''))
                 [(0, FileChanged), (5000, TimePasses), (6000, ForceRequested)]) = []"
proof -
  let ?w = "newWatcher (Some ''/w'')"
  have none: "currentIndex ?w = None" and idle: "\<not> isIndexing ?w" and out: "outward ?w = []"
    by (simp_all add: newWatcher_def outward_def)
  have fr: "forceReindex ?w = ([''Force re-index requested''], Inr (?w \<lparr> effects := [ReindexRequested] \<rparr>))"
    by (simp add: forceReindex_def reindexWorkspace_def newWatcher_def Let_def)
  from no_snapshot_no_reindex[OF none, of "[(0, FileChanged), (5000, TimePasses), (6000, ForceRequested)]"]
    fr idle out
  have "outward (?w \<lparr> effects := [ReindexRequested] \<rparr>) = []"
    and "outward (run ?w [(0, FileChanged), (5000, TimePasses), (6000, ForceRequested)]) = []"
    by auto
  with none idle fr show ?thesis by (intro conjI)
qed

lemma fireDue_busy:
  "isIndexing v \<Longrightarrow> fireDue now v = v \<or> fireDue now v = v\<lparr> debounceTimer := None \<rparr>"
  by (simp add: fireDue_def timerCallback_def split: option.splits)

lemma step_busy:
  assumes "isIndexing v" "\<not> settles (snd te)"
  shows "isIndexing (step v te) \<and> effects (step v te) = effects v
         \<and> currentIndex (step v te) = currentIndex v"
  using assms fireDue_busy[OF assms(1), of "fst te"]
  by (cases "snd te")
     (auto simp: step_def Let_def settles_def onFileChanged_def forceReindex_def split: option.splits)

lemma run_busy:
  "isIndexing v \<Longrightarrow> \<forall>te \<in> set tes. \<not> settles (snd te) \<Longrightarrow>
     isIndexing (run v tes) \<and> effects (run v tes) = effects v
     \<and> currentIndex (run v tes) = currentIndex v"
proof (induction tes arbitrary: v)
  case Nil then show ?case by simp
next
  case (Cons te tes)
  from step_busy[of v te] Cons.prems have s: "isIndexing (step v te)" "effects (step v te) = effects v"
    "currentIndex (step v te) = currentIndex v" by auto
  from Cons.IH[OF s(1)] Cons.prems(2) s show ?case by simp
qed

lemma reindexFinish_props:
  "\<not> isIndexing (reindexFinish t oc v)"
  "walks (reindexFinish t oc v) = walks v"
  "requests (reindexFinish t oc v) = requests v"
  "debounceDelay (reindexFinish t oc v) = debounceDelay v"
  "pendingChanges (reindexFinish t oc v) = pendingChanges v"
  "debounceTimer (reindexFinish t oc v)
     = (if pendingChanges v then Some (t + debounceDelay v) else debounceTimer v)"
  by (cases oc; simp add: reindexFinish_def Let_def onFileChanged_def walks_def requests_def)+

lemma step_busy_walks: "isIndexing v \<Longrightarrow> walks (step v te) = walks v"
proof -
  assume b: "isIndexing v"
  from fireDue_busy[OF b, of "fst te"]
  have fd: "walks (fireDue (fst te) v) = walks v" "isIndexing (fireDue (fst te) v)"
    using b by (auto simp: walks_def)
  show ?thesis
  proof (cases "snd te")
    case FileChanged with fd show ?thesis by (simp add: step_def Let_def onFileChanged_def walks_def)
  next
    case ForceRequested with fd show ?thesis
      by (simp add: step_def Let_def forceReindex_def split: option.splits)
  next
    case (RunSettled oc) with fd show ?thesis
      by (simp add: step_def Let_def reindexFinish_props)
  next
    case TimePasses with fd show ?thesis by (simp add: step_def Let_def)
  qed
qed

lemma step_fires:
  assumes "\<not> isIndexing v" "pendingChanges v" "debounceTimer v = Some d" "d \<le> t"
  shows "requests (step v (t, TimePasses)) = requests v + 1"
  using assms
  by (simp add: step_def Let_def fireDue_def timerCallback_def reindexWorkspace_def requests_def
           split: option.splits)

text \<open>
  C6. One run at a time. While a run is in flight (\<open>isIndexing\<close>): no event starts a walk;
  until the run settles, whatever events arrive, \<open>isIndexing\<close> stays, and the effects and
  the snapshot held are untouched; \<open>forceReindex\<close> prints that a re-index is in progress
  and returns the watcher as it is, so that a force request is the same as no event at
  all; a notification changes nothing but \<open>pendingChanges\<close>, which it sets, and the
  debounce timer, which it restarts; a timer that falls due does nothing. A notification
  during the run followed by the settling of the run requests no re-index, ends the run
  and leaves the timer armed one full delay after the settling; when that delay has
  elapsed exactly one re-index is requested.
\<close>

theorem one_reindex_at_a_time:
  "(isIndexing w \<longrightarrow> walks (step w te) = walks w)
   \<and> (isIndexing w \<and> (\<forall>te \<in> set tes. \<not> settles (snd te)) \<longrightarrow>
        isIndexing (run w tes) \<and> effects (run w tes) = effects w
        \<and> currentIndex (run w tes) = currentIndex w)
   \<and> (isIndexing w \<and> workspaceFolder w \<noteq> None \<longrightarrow>
        forceReindex w = ([''Re-indexing already in progress''], Inr w))
   \<and> (isIndexing w \<longrightarrow> step w (now, ForceRequested) = step w (now, TimePasses))
   \<and> (isIndexing w \<longrightarrow>
        step w (now, FileChanged)
          = (step w (now, TimePasses))
              \<lparr> pendingChanges := True, debounceTimer := Some (now + debounceDelay w) \<rparr>)
   \<and> (isIndexing w \<longrightarrow>
        step w (now, TimePasses) = w \<or> step w (now, TimePasses) = w\<lparr> debounceTimer := None \<rparr>)
   \<and> (isIndexing w \<and> ta \<le> tb \<and> tb + debounceDelay w \<le> tc \<longrightarrow>
        requests (run w [(ta, FileChanged), (tb, RunSettled oc)]) = requests w
        \<and> \<not> isIndexing (run w [(ta, FileChanged), (tb, RunSettled oc)])
        \<and> debounceTimer (run w [(ta, FileChanged), (tb, RunSettled oc)])
            = Some (tb + debounceDelay w)
        \<and> requests (run w [(ta, FileChanged), (tb, RunSettled oc), (tc, TimePasses)])
            = requests w + 1)"
proof -
  have c1: "isIndexing w \<longrightarrow> walks (step w te) = walks w"
    using step_busy_walks by blast
  have c2: "isIndexing w \<and> (\<forall>te \<in> set tes. \<not> settles (snd te)) \<longrightarrow>
        isIndexing (run w tes) \<and> effects (run w tes) = effects w
        \<and> currentIndex (run w tes) = currentIndex w"
    using run_busy by blast
  have c3: "isIndexing w \<and> workspaceFolder w \<noteq> None \<longrightarrow>
        forceReindex w = ([''Re-indexing already in progress''], Inr w)"
    by (auto simp: forceReindex_def)
  have c4: "isIndexing w \<longrightarrow> step w (now, ForceRequested) = step w (now, TimePasses)"
    using fireDue_busy[of w now]
    by (auto simp: step_def Let_def forceReindex_def split: option.splits)
  have c5: "isIndexing w \<longrightarrow>
        step w (now, FileChanged)
          = (step w (now, TimePasses))
              \<lparr> pendingChanges := True, debounceTimer := Some (now + debounceDelay w) \<rparr>"
    using fireDue_busy[of w now]
    by (auto simp: step_def Let_def onFileChanged_def)
  have c6: "isIndexing w \<longrightarrow>
        step w (now, TimePasses) = w \<or> step w (now, TimePasses) = w\<lparr> debounceTimer := None \<rparr>"
    using fireDue_busy[of w now] by (simp add: step_def Let_def)
  have c7: "isIndexing w \<and> ta \<le> tb \<and> tb + debounceDelay w \<le> tc \<longrightarrow>
        requests (run w [(ta, FileChanged), (tb, RunSettled oc)]) = requests w
        \<and> \<not> isIndexing (run w [(ta, FileChanged), (tb, RunSettled oc)])
        \<and> debounceTimer (run w [(ta, FileChanged), (tb, RunSettled oc)])
            = Some (tb + debounceDelay w)
        \<and> requests (run w [(ta, FileChanged), (tb, RunSettled oc), (tc, TimePasses)])
            = requests w + 1"
  proof
    assume a: "isIndexing w \<and> ta \<le> tb \<and> tb + debounceDelay w \<le> tc"
    then have b: "isIndexing w" by simp
    let ?w1 = "step w (ta, FileChanged)"
    from fireDue_busy[OF b, of ta] have w1: "isIndexing ?w1" "pendingChanges ?w1"
      "debounceTimer ?w1 = Some (ta + debounceDelay w)" "effects ?w1 = effects w"
      "debounceDelay ?w1 = debounceDelay w"
      using b by (auto simp: step_def Let_def onFileChanged_def)
    let ?w2 = "step ?w1 (tb, RunSettled oc)"
    let ?v = "fireDue tb ?w1"
    from fireDue_busy[OF w1(1), of tb] w1
    have v: "isIndexing ?v" "pendingChanges ?v" "requests ?v = requests w" "debounceDelay ?v = debounceDelay w"
      by (auto simp: requests_def)
    have s2: "?w2 = reindexFinish tb oc ?v" using v(1) by (simp add: step_def Let_def)
    have w2: "\<not> isIndexing ?w2" "pendingChanges ?w2" "debounceTimer ?w2 = Some (tb + debounceDelay w)"
      "requests ?w2 = requests w" "debounceDelay ?w2 = debounceDelay w"
      unfolding s2 using v by (simp_all add: reindexFinish_props)
    from a have "tb + debounceDelay w \<le> tc" by simp
    from step_fires[OF w2(1) w2(2) w2(3) this] w2(4)
    have "requests (step ?w2 (tc, TimePasses)) = requests w + 1" by simp
    with w2 show "requests (run w [(ta, FileChanged), (tb, RunSettled oc)]) = requests w
        \<and> \<not> isIndexing (run w [(ta, FileChanged), (tb, RunSettled oc)])
        \<and> debounceTimer (run w [(ta, FileChanged), (tb, RunSettled oc)])
            = Some (tb + debounceDelay w)
        \<and> requests (run w [(ta, FileChanged), (tb, RunSettled oc), (tc, TimePasses)])
            = requests w + 1"
      by simp
  qed
  show ?thesis by (intro conjI) (fact c1 c2 c3 c4 c5 c6 c7)+
qed


theorem one_reindex_at_a_time_witness:
  "isIndexing busyWatcher \<and> workspaceFolder busyWatcher \<noteq> None
   \<and> \<not> settles ForceRequested \<and> \<not> settles FileChanged \<and> \<not> settles TimePasses
   \<and> (200 :: nat) \<le> 300 \<and> 300 + debounceDelay busyWatcher \<le> 5300
   \<and> forceReindex busyWatcher = ([''Re-indexing already in progress''], Inr busyWatcher)
   \<and> effects (run busyWatcher [(100, ForceRequested), (200, FileChanged), (9000, TimePasses)])
       = [ReindexRequested, WalkStarted ''/w'']
   \<and> requests (run busyWatcher
         [(200, FileChanged), (300, RunSettled (Completed exampleIndex)), (5300, TimePasses)]) = 2"
proof -
  have busy: "isIndexing busyWatcher" and folder: "workspaceFolder busyWatcher \<noteq> None"
    and eff: "effects busyWatcher = [ReindexRequested, WalkStarted ''/w'']"
    and dl: "debounceDelay busyWatcher = 5000"
    by (simp_all add: busyWatcher_def exampleWatcher_def newWatcher_def setCurrentIndex_def
        reindexWorkspace_def Let_def)
  have quiet: "\<forall>te \<in> set [(100 :: nat, ForceRequested), (200, FileChanged), (9000, TimePasses)].
         \<not> settles (snd te)"
    by (simp add: settles_def)
  have times: "(200 :: nat) \<le> 300" "300 + debounceDelay busyWatcher \<le> 5300"
    by (simp_all add: dl)
  have req: "requests busyWatcher = 1" by (simp add: requests_def eff)
  note inst = one_reindex_at_a_time[where w = busyWatcher
      and tes = "[(100, ForceRequested), (200, FileChanged), (9000, TimePasses)]"
      and ta = 200 and tb = 300 and tc = 5300 and oc = "Completed exampleIndex"]
  note c2 = inst[THEN conjunct2, THEN conjunct1, rule_format]
  note c3 = inst[THEN conjunct2, THEN conjunct2, THEN conjunct1, rule_format]
  note c7 = inst[THEN conjunct2, THEN conjunct2, THEN conjunct2, THEN conjunct2, THEN conjunct2,
                 THEN conjunct2, rule_format]
  have f: "forceReindex busyWatcher = ([''Re-indexing already in progress''], Inr busyWatcher)"
    using c3 busy folder by blast
  have "effects (run busyWatcher [(100, ForceRequested), (200, FileChanged), (9000, TimePasses)])
       = effects busyWatcher"
    using c2 busy quiet by blast
  then have e: "effects (run busyWatcher [(100, ForceRequested), (200, FileChanged), (9000, TimePasses)])
       = [ReindexRequested, WalkStarted ''/w'']"
    unfolding eff .
  have "requests (run busyWatcher
         [(200, FileChanged), (300, RunSettled (Completed exampleIndex)), (5300, TimePasses)])
         = requests busyWatcher + 1"
    using c7 busy times by blast
  then have r: "requests (run busyWatcher
         [(200, FileChanged), (300, RunSettled (Completed exampleIndex)), (5300, TimePasses)]) = 2"
    unfolding req by simp
  have ns: "\<not> settles ForceRequested" "\<not> settles FileChanged" "\<not> settles TimePasses"
    by (simp_all add: settles_def)
  from busy folder ns times f e r show ?thesis by (intro conjI)
qed


section \<open>Results on the symbol extractor and the pattern matcher\<close>

lemma located_props:
  assumes "\<not> nullable r"
  shows "\<exists>ms. located tag r c = Some ms \<and> pushAll tag r c = Some (map snd ms)
           \<and> sorted_wrt (<) (map fst ms) \<and> list_all (\<lambda>p. startsWith (snd p) tag) ms"
proof -
  from execAll_total[OF assms, of c 0] obtain xs where xs: "execAll r c 0 = Some xs" by blast
  from execAll_sorted[OF assms xs] have "sorted_wrt (<) (map fst xs)" by simp
  then have "sorted_wrt (<) (map fst (map (\<lambda>m. (fst m, tag @ group1 m)) xs))"
    by (simp add: comp_def)
  moreover have "list_all (\<lambda>p. startsWith (snd p) tag) (map (\<lambda>m. (fst m, tag @ group1 m)) xs)"
    by (simp add: list_all_iff startsWith_def)
  ultimately show ?thesis using xs by (simp add: located_def pushAll_def comp_def)
qed

lemma twoLocated_props:
  assumes "\<not> nullable r1" "\<not> nullable r2"
  shows "\<exists>first second. twoLocated t1 r1 t2 r2 c = Some (first, second)
           \<and> twoLoops t1 r1 t2 r2 c = Some (map snd first @ map snd second)
           \<and> sorted_wrt (<) (map fst first) \<and> sorted_wrt (<) (map fst second)
           \<and> list_all (\<lambda>p. startsWith (snd p) t1) first
           \<and> list_all (\<lambda>p. startsWith (snd p) t2) second"
  using located_props[OF assms(1), of t1 c] located_props[OF assms(2), of t2 c]
  by (auto simp: twoLocated_def twoLoops_def)

text \<open>
  C4, as the code has it. For every content and language, \<open>extractSymbols\<close> returns the
  symbols of the first loop of the language's branch followed by the symbols of its second
  loop (\<open>fn:\<close> then \<open>class:\<close> for TypeScript, JavaScript and Python, \<open>class:\<close> then
  \<open>method:\<close> for Java and C#, nothing for any other language). Inside each of the two
  groups the symbols stand in the order of the positions of their matches in the content,
  which increase strictly. Nothing is said of the order between a symbol of the first
  group and one of the second.
\<close>

theorem extractSymbols_grouped_order:
  "\<exists>first second.
      locatedSymbols src lang = Some (first, second)
    \<and> extractSymbols src lang = Some (map snd first @ map snd second)
    \<and> sorted_wrt (<) (map fst first) \<and> sorted_wrt (<) (map fst second)
    \<and> list_all (\<lambda>p. startsWith (snd p) (fst (loopTags lang))) first
    \<and> list_all (\<lambda>p. startsWith (snd p) (snd (loopTags lang))) second"
proof -
  consider (js) "lang = ''typescript'' \<or> lang = ''javascript''"
    | (py) "lang = ''python''"
    | (java) "lang = ''java'' \<or> lang = ''csharp''"
    | (other) "\<not> (lang = ''typescript'' \<or> lang = ''javascript'')" "lang \<noteq> ''python''"
        "\<not> (lang = ''java'' \<or> lang = ''csharp'')"
    by blast
  then show ?thesis
  proof cases
    case js
    with twoLocated_props[OF patterns_not_nullable(1) patterns_not_nullable(2), of "''fn:''" "''class:''" src]
    show ?thesis by (auto simp: locatedSymbols_def extractSymbols_def loopTags_def)
  next
    case py
    with twoLocated_props[OF patterns_not_nullable(3) patterns_not_nullable(4), of "''fn:''" "''class:''" src]
    show ?thesis by (auto simp: locatedSymbols_def extractSymbols_def loopTags_def)
  next
    case java
    with twoLocated_props[OF patterns_not_nullable(5) patterns_not_nullable(6), of "''class:''" "''method:''" src]
    show ?thesis by (auto simp: locatedSymbols_def extractSymbols_def loopTags_def)
  next
    case other
    then show ?thesis by (simp add: locatedSymbols_def extractSymbols_def loopTags_def)
  qed
qed

text \<open>
  C4, as stated, fails. In \<open>class A {} function f() {}\<close> the class is defined at
  position 0 and the function at position 11, so the order of first occurrence is
  \<open>class:A\<close>, \<open>fn:f\<close>; \<open>extractSymbols\<close> returns \<open>fn:f\<close>, \<open>class:A\<close>.
\<close>

theorem extractSymbols_occurrence_order_counterexample:
  "locatedSymbols ''class A {} function f() {}'' ''javascript''
     = Some ([(11, ''fn:f'')], [(0, ''class:A'')])
   \<and> extractSymbols ''class A {} function f() {}'' ''javascript'' = Some [''fn:f'', ''class:A'']
   \<and> symbolsByOccurrence ''class A {} function f() {}'' ''javascript'' = Some [''class:A'', ''fn:f'']
   \<and> extractSymbols ''class A {} function f() {}'' ''javascript''
       \<noteq> symbolsByOccurrence ''class A {} function f() {}'' ''javascript''"
proof -
  have l: "locatedSymbols ''class A {} function f() {}'' ''javascript''
     = Some ([(11, ''fn:f'')], [(0, ''class:A'')])"
    by code_simp
  have e: "extractSymbols ''class A {} function f() {}'' ''javascript'' = Some [''fn:f'', ''class:A'']"
    by code_simp
  have s: "symbolsByOccurrence ''class A {} function f() {}'' ''javascript'' = Some [''class:A'', ''fn:f'']"
    unfolding symbolsByOccurrence_def l by simp
  from l e s show ?thesis by simp
qed

lemma conforms_exampleHost: "conforms exampleHost"
  by (simp add: conforms_def exampleHost_def)

lemma regexPattern_double_star:
  "regexPattern ''**/x.js'' = ''.[^/]*/x'' @ [CHR 0x5C] @ ''.js''"
  by (simp add: regexPattern_def replaceChar_def)

text \<open>
  C2, on the code. The pattern \<open>**/x.js\<close> is translated to the expression
  \<open>^.[^/]*/x\.js$\<close>: the stars of the \<open>.*\<close> that replaced \<open>**\<close> are replaced again by the
  third \<open>replace\<close>, so \<open>**\<close> ends up as one character followed by characters other than
  the separator. With an engine that agrees with the computed one, the pattern matches
  \<open>a/x.js\<close> but not \<open>a/b/x.js\<close>, and \<open>src/**\<close> does not match \<open>src/a/b.ts\<close>; read as the
  spec words it, each of the two patterns matches.
\<close>

theorem matchesPattern_double_star:
  assumes "conforms h"
  shows "regexPattern ''**/x.js'' = ''.[^/]*/x'' @ [CHR 0x5C] @ ''.js''
       \<and> matchesPattern h ''a/x.js'' ''**/x.js''
       \<and> \<not> matchesPattern h ''a/b/x.js'' ''**/x.js''
       \<and> matchesGlobSpec ''a/b/x.js'' ''**/x.js''
       \<and> regexPattern ''src/**'' = ''src/.[^/]*''
       \<and> \<not> matchesPattern h ''src/a/b.ts'' ''src/**''
       \<and> matchesGlobSpec ''src/a/b.ts'' ''src/**''"
proof -
  have m1: "modelledTest (''^'' @ regexPattern ''**/x.js'' @ ''$'') ''a/x.js'' = Some True"
    by code_simp
  have m2: "modelledTest (''^'' @ regexPattern ''**/x.js'' @ ''$'') ''a/b/x.js'' = Some False"
    by code_simp
  have m3: "modelledTest (''^'' @ regexPattern ''src/**'' @ ''$'') ''src/a/b.ts'' = Some False"
    by code_simp
  have g1: "matchesGlobSpec ''a/b/x.js'' ''**/x.js''" by code_simp
  have g2: "matchesGlobSpec ''src/a/b.ts'' ''src/**''" by code_simp
  have r2: "regexPattern ''src/**'' = ''src/.[^/]*''"
    by (simp add: regexPattern_def replaceChar_def)
  have t: "matchesPattern h p pat = b"
    if "modelledTest (''^'' @ regexPattern pat @ ''$'') p = Some b" for p pat b
  proof -
    from assms that have "regexTest h (''^'' @ regexPattern pat @ ''$'') p = Some b"
      unfolding conforms_def by blast
    then show ?thesis unfolding matchesPattern_def by (simp only: option.case)
  qed
  from t[OF m1] t[OF m2] t[OF m3] have
    "matchesPattern h ''a/x.js'' ''**/x.js''"
    "\<not> matchesPattern h ''a/b/x.js'' ''**/x.js''"
    "\<not> matchesPattern h ''src/a/b.ts'' ''src/**''"
    by (simp_all only: simp_thms)
  with regexPattern_double_star g1 g2 r2 show ?thesis by (intro conjI)
qed

theorem matchesPattern_double_star_witness:
  "conforms exampleHost
   \<and> \<not> matchesPattern exampleHost ''a/b/x.js'' ''**/x.js''
   \<and> matchesGlobSpec ''a/b/x.js'' ''**/x.js''
   \<and> \<not> matchesPattern exampleHost ''src/a/b.ts'' ''src/**''
   \<and> matchesGlobSpec ''src/a/b.ts'' ''src/**''"
  using matchesPattern_double_star[OF conforms_exampleHost] conforms_exampleHost by (intro conjI) simp_all

end
